theory Spec2Isabelle
  imports Main
begin

section \<open>Python values, strings and dictionaries\<close>

text \<open>
  Tag names are Python (unicode) strings, modelled as \<^typ>\<open>string\<close>. Two functions on
  strings belong to the host and not to the two modules: \<open>unicode.lower()\<close> of the
  interpreter, which follows the case tables of Unicode, and the case folding under
  which the database compares two names for \<open>name__iexact\<close>, which depends on the
  database and its collation. Both are parameters of the model: every definition that
  lowercases a name or looks one up takes the host \<open>H\<close>, and what is proved of it holds
  for every pair of functions.
\<close>

record host =
  py_lower :: "string \<Rightarrow> string"
  db_fold :: "string \<Rightarrow> string"

text \<open>The exceptions raised by, or passing through, the code of the two modules.\<close>

datatype error =
    AttributeError string
  | KeyError string
  | ValueError
  | ValidationError
  | DoesNotExist
  | MultipleObjectsReturned

text \<open>
  The option values that \<open>TagOptions\<close> stores: the code only inspects whether the
  value given for \<open>initial\<close> is a string. \<open>PAttr n\<close> is what the class itself holds under
  the name \<open>n\<close>: a method bound to the object, or a slot of the type.
\<close>

datatype pyval = PNone | PBool bool | PInt int | PStr string | PList "string list" | PAttr string

text \<open>
  A Python \<open>dict\<close> is an association list with one entry per key: assigning to a key
  that is present replaces its value in place, a new key is added at the end.
\<close>

type_synonym pydict = "(string \<times> pyval) list"

fun dict_set :: "'k \<Rightarrow> 'v \<Rightarrow> ('k \<times> 'v) list \<Rightarrow> ('k \<times> 'v) list" where
  "dict_set k v [] = [(k, v)]"
| "dict_set k v (e # d) = (if fst e = k then (k, v) # d else e # dict_set k v d)"

definition dict_keys :: "('k \<times> 'v) list \<Rightarrow> 'k set" where
  "dict_keys d = fst ` set d"

text \<open>\<open>dict(pairs)\<close> and \<open>d.update(pairs)\<close>: the pairs are assigned in order.\<close>

definition dict_update :: "('k \<times> 'v) list \<Rightarrow> ('k \<times> 'v) list \<Rightarrow> ('k \<times> 'v) list" where
  "dict_update d pairs = foldl (\<lambda>acc e. dict_set (fst e) (snd e) acc) d pairs"

definition dict_of :: "('k \<times> 'v) list \<Rightarrow> ('k \<times> 'v) list" where
  "dict_of pairs = dict_update [] pairs"

text \<open>\<open>d[k]\<close> raises \<open>KeyError\<close> on a missing key; \<open>d.get(k, default)\<close> does not.\<close>

definition dict_subscript :: "pydict \<Rightarrow> string \<Rightarrow> error + pyval" where
  "dict_subscript d k = (case map_of d k of None \<Rightarrow> Inl (KeyError k) | Some v \<Rightarrow> Inr v)"

definition dict_get :: "('k \<times> 'v) list \<Rightarrow> 'k \<Rightarrow> 'v \<Rightarrow> 'v" where
  "dict_get d k dflt = (case map_of d k of None \<Rightarrow> dflt | Some v \<Rightarrow> v)"


section \<open>tagulous/models/options.py\<close>

text \<open>
  A \<open>TagOptions\<close> object is its \<open>__dict__\<close>. The module \<open>tagulous.constants\<close> and the
  functions \<open>parse_tags\<close> and \<open>render_tags\<close> of \<open>tagulous.utils\<close> are not part of the
  sources at hand: the table \<open>OPTION_DEFAULTS\<close> and the two functions are parameters of
  every definition that uses them.
\<close>

definition PROPERTIES :: "string list" where
  "PROPERTIES = [''_initial'', ''initial_string'']"

definition TagOptions_setattr ::
  "pydict \<Rightarrow> (string \<Rightarrow> string list) \<Rightarrow> (pyval \<Rightarrow> string)
     \<Rightarrow> pydict \<Rightarrow> string \<Rightarrow> pyval \<Rightarrow> error + pydict" where
  "TagOptions_setattr OPTION_DEFAULTS parse_tags render_tags self name val =
     (if name = ''initial'' then
        (case val of
           PStr s \<Rightarrow>
             Inr (dict_set ''initial'' (PList (parse_tags s))
                    (dict_set ''initial_string'' (PStr s) self))
         | _ \<Rightarrow>
             Inr (dict_set ''initial'' val
                    (dict_set ''initial_string'' (PStr (render_tags val)) self)))
      else if name \<in> dict_keys OPTION_DEFAULTS then Inr (dict_set name val self)
      else Inl (AttributeError name))"

text \<open>
  A raise of \<open>__setattr__\<close> comes before any assignment, so the result is either the
  exception, the object being as it was, or the object after the assignment.

  \<open>__getattr__\<close> is what Python calls for a name that the ordinary attribute look-up
  does not find.
\<close>

definition TagOptions_getattr :: "pydict \<Rightarrow> pydict \<Rightarrow> string \<Rightarrow> error + pyval" where
  "TagOptions_getattr OPTION_DEFAULTS self name =
     (if name \<in> set PROPERTIES then dict_subscript self name
      else if name \<notin> dict_keys OPTION_DEFAULTS then Inl (AttributeError name)
      else (case dict_subscript OPTION_DEFAULTS name of
              Inl e \<Rightarrow> Inl e
            | Inr dflt \<Rightarrow> Inr (dict_get self name dflt)))"

text \<open>
  The read \<open>options.name\<close> is the ordinary attribute look-up of a new-style class,
  with \<open>__getattr__\<close> as its last resort. The look-up finds, in this order: a slot of
  the type (the data descriptors \<open>__class__\<close>, \<open>__dict__\<close> and \<open>__weakref__\<close>); an entry
  of the instance's \<open>__dict__\<close>; any other attribute of the class. The attributes of the
  class are the methods defined in the body of \<open>TagOptions\<close>, the \<open>__doc__\<close> and
  \<open>__module__\<close> that every class body gets, and what the class inherits from \<open>object\<close>.
\<close>

definition type_slots :: "string list" where
  "type_slots = [''__class__'', ''__dict__'', ''__weakref__'']"

definition class_attributes :: "string list" where
  "class_attributes =
     [''__init__'', ''__setattr__'', ''__getattr__'', ''_get_items'', ''items'',
      ''field_items'', ''__add__'', ''__doc__'', ''__module__'',
      ''__delattr__'', ''__format__'', ''__getattribute__'', ''__hash__'', ''__new__'',
      ''__reduce__'', ''__reduce_ex__'', ''__repr__'', ''__sizeof__'', ''__str__'',
      ''__subclasshook__'']"

definition TagOptions_getattribute :: "pydict \<Rightarrow> pydict \<Rightarrow> string \<Rightarrow> error + pyval" where
  "TagOptions_getattribute OPTION_DEFAULTS self name =
     (if name \<in> set type_slots then Inr (PAttr name)
      else
        (case map_of self name of
           Some v \<Rightarrow> Inr v
         | None \<Rightarrow>
             if name \<in> set class_attributes then Inr (PAttr name)
             else TagOptions_getattr OPTION_DEFAULTS self name))"

text \<open>\<open>__init__\<close>: the keyword arguments are set one by one; the first failure ends it.\<close>

fun TagOptions_init_loop ::
  "pydict \<Rightarrow> (string \<Rightarrow> string list) \<Rightarrow> (pyval \<Rightarrow> string)
     \<Rightarrow> pydict \<Rightarrow> pydict \<Rightarrow> error + pydict" where
  "TagOptions_init_loop D parse_tags render_tags self [] = Inr self"
| "TagOptions_init_loop D parse_tags render_tags self (kv # kwargs) =
     (case TagOptions_setattr D parse_tags render_tags self (fst kv) (snd kv) of
        Inl e \<Rightarrow> Inl e
      | Inr self' \<Rightarrow> TagOptions_init_loop D parse_tags render_tags self' kwargs)"

definition TagOptions_init ::
  "pydict \<Rightarrow> (string \<Rightarrow> string list) \<Rightarrow> (pyval \<Rightarrow> string) \<Rightarrow> pydict \<Rightarrow> error + pydict" where
  "TagOptions_init D parse_tags render_tags kwargs = TagOptions_init_loop D parse_tags render_tags [] kwargs"

fun TagOptions_get_items_defaults :: "pydict \<Rightarrow> pydict \<Rightarrow> string list \<Rightarrow> error + pydict" where
  "TagOptions_get_items_defaults D self [] = Inr []"
| "TagOptions_get_items_defaults D self (name # keys) =
     (case dict_subscript D name of
        Inl e \<Rightarrow> Inl e
      | Inr dflt \<Rightarrow>
          (case TagOptions_get_items_defaults D self keys of
             Inl e \<Rightarrow> Inl e
           | Inr rest \<Rightarrow> Inr ((name, dict_get self name dflt) # rest)))"

definition TagOptions_get_items :: "pydict \<Rightarrow> pydict \<Rightarrow> bool \<Rightarrow> string list \<Rightarrow> error + pydict" where
  "TagOptions_get_items D self with_defaults keys =
     (if with_defaults then
        (case TagOptions_get_items_defaults D self keys of
           Inl e \<Rightarrow> Inl e
         | Inr pairs \<Rightarrow> Inr (dict_of pairs))
      else Inr (dict_of (filter (\<lambda>kv. fst kv \<in> set keys) self)))"

definition TagOptions_items :: "pydict \<Rightarrow> pydict \<Rightarrow> bool \<Rightarrow> error + pydict" where
  "TagOptions_items D self with_defaults = TagOptions_get_items D self with_defaults (map fst D)"

definition TagOptions_add ::
  "pydict \<Rightarrow> (string \<Rightarrow> string list) \<Rightarrow> (pyval \<Rightarrow> string)
     \<Rightarrow> pydict \<Rightarrow> pydict \<Rightarrow> error + pydict" where
  "TagOptions_add D parse_tags render_tags self options =
     (case TagOptions_items D self False of
        Inl e \<Rightarrow> Inl e
      | Inr dct \<Rightarrow>
          (case TagOptions_items D options False of
             Inl e \<Rightarrow> Inl e
           | Inr other \<Rightarrow> TagOptions_init D parse_tags render_tags (dict_update dct other)))"


section \<open>The tag model and the instance, as the managers see them\<close>

text \<open>
  The module of the tag model is not among the sources; its fields are taken from
  their use in \<open>managers.py\<close>. An in-memory instance of the tag model has its primary
  key (\<open>None\<close> until it is saved), its name and its \<open>protected\<close> flag. The usage
  counter lives in the table row; a new row starts with a counter of zero.
\<close>

record tag =
  pk :: "nat option"
  name :: string
  protected :: bool

record tag_row =
  row_pk :: nat
  row_name :: string
  row_count :: int
  row_protected :: bool

definition tag_of_row :: "tag_row \<Rightarrow> tag" where
  "tag_of_row r = \<lparr>pk = Some (row_pk r), name = row_name r, protected = row_protected r\<rparr>"

text \<open>\<open>if tag.pk:\<close> holds for a primary key that is neither \<open>None\<close> nor \<open>0\<close>.\<close>

definition truthy_pk :: "tag \<Rightarrow> bool" where
  "truthy_pk t = (case pk t of None \<Rightarrow> False | Some p \<Rightarrow> p \<noteq> 0)"

text \<open>
  Two instances of a model are equal (\<open>==\<close>, and so for \<open>in\<close>) when their primary
  keys are. The managers compare only tags of which one is loaded from the table.
\<close>

definition tag_eq :: "tag \<Rightarrow> tag \<Rightarrow> bool" where
  "tag_eq a b = (pk a = pk b)"

definition tag_in :: "tag \<Rightarrow> tag list \<Rightarrow> bool" where
  "tag_in t ts = (\<exists>u \<in> set ts. tag_eq u t)"

text \<open>The calls that reach the database, in the order they are made.\<close>

datatype db_op =
    OpGet bool string
  | OpInsert nat string
  | OpUpdate nat
  | OpCount "nat option" int
  | OpLoad nat
  | OpAll
  | OpRelAdd "nat list"
  | OpRelRemove "nat list"

text \<open>
  The world outside a manager: the table of the tag model with the next primary key it
  hands out; the instance's foreign key attribute (\<open>field.attname\<close>, \<open>None\<close> when the
  attribute does not exist) and the cache of the foreign key descriptor
  (\<open>field.get_cache_name()\<close>, \<open>None\<close> when the attribute does not exist); the rows
  that relate the instance to tags through its \<open>TagField\<close>; and the log of calls.
\<close>

record world =
  table :: "tag_row list"
  next_pk :: nat
  attname :: "nat option option"
  cache :: "tag option option"
  rel :: "nat list"
  log :: "db_op list"

definition logged :: "db_op \<Rightarrow> world \<Rightarrow> world" where
  "logged ev w = w\<lparr>log := log w @ [ev]\<rparr>"

subsection \<open>The query API of the host framework\<close>

text \<open>
  \<open>tag_model.objects.get(name=nm)\<close> and \<open>get(name__iexact=nm)\<close>: the one row that
  matches, \<open>DoesNotExist\<close> when there is none, \<open>MultipleObjectsReturned\<close> when there
  are several. The case-insensitive match compares the names as the database folds them.
\<close>

definition matches :: "host \<Rightarrow> bool \<Rightarrow> string \<Rightarrow> tag_row \<Rightarrow> bool" where
  "matches H iexact nm r = (if iexact then db_fold H (row_name r) = db_fold H nm else row_name r = nm)"

definition objects_get :: "host \<Rightarrow> bool \<Rightarrow> string \<Rightarrow> world \<Rightarrow> (error + tag) \<times> world" where
  "objects_get H iexact nm w =
     (case filter (matches H iexact nm) (table w) of
        [] \<Rightarrow> (Inl DoesNotExist, logged (OpGet iexact nm) w)
      | [r] \<Rightarrow> (Inr (tag_of_row r), logged (OpGet iexact nm) w)
      | _ \<Rightarrow> (Inl MultipleObjectsReturned, logged (OpGet iexact nm) w))"

text \<open>
  \<open>tag.save()\<close>: an instance without primary key is inserted under the next key, with
  a counter of zero, and the key is written to the instance; an instance with a primary
  key overwrites its row, or is inserted under that key when the table has no such row.
\<close>

definition tag_save :: "tag \<Rightarrow> world \<Rightarrow> tag \<times> world" where
  "tag_save t w =
     (case pk t of
        None \<Rightarrow>
          (t\<lparr>pk := Some (next_pk w)\<rparr>,
           logged (OpInsert (next_pk w) (name t))
             (w\<lparr>table := table w @
                   [\<lparr>row_pk = next_pk w, row_name = name t, row_count = 0,
                     row_protected = protected t\<rparr>],
                 next_pk := Suc (next_pk w)\<rparr>))
      | Some p \<Rightarrow>
          if p \<in> row_pk ` set (table w) then
            (t, logged (OpUpdate p)
                  (w\<lparr>table := map (\<lambda>r. if row_pk r = p
                                         then r\<lparr>row_name := name t, row_protected := protected t\<rparr>
                                         else r) (table w)\<rparr>))
          else
            (t, logged (OpInsert p (name t))
                  (w\<lparr>table := table w @
                        [\<lparr>row_pk = p, row_name = name t, row_count = 0,
                          row_protected = protected t\<rparr>]\<rparr>)))"

text \<open>\<open>tag_model.objects.create(name=nm, protected=b)\<close>: a new instance, saved.\<close>

definition objects_create :: "string \<Rightarrow> bool \<Rightarrow> world \<Rightarrow> tag \<times> world" where
  "objects_create nm b w = tag_save \<lparr>pk = None, name = nm, protected = b\<rparr> w"

text \<open>
  Modelled from the spec: \<open>increment\<close> and \<open>decrement\<close> are methods of the tag model,
  whose module is not among the sources. The spec has them maintain the reference count
  on the tag record: the counter of the instance's row goes up or down by one. An
  instance without a row changes no counter.
\<close>

definition change_count :: "int \<Rightarrow> tag \<Rightarrow> world \<Rightarrow> world" where
  "change_count amount t w =
     logged (OpCount (pk t) amount)
       (w\<lparr>table := map (\<lambda>r. if Some (row_pk r) = pk t
                              then r\<lparr>row_count := row_count r + amount\<rparr> else r) (table w)\<rparr>)"

definition increment :: "tag \<Rightarrow> world \<Rightarrow> world" where
  "increment t w = change_count 1 t w"

definition decrement :: "tag \<Rightarrow> world \<Rightarrow> world" where
  "decrement t w = change_count (- 1) t w"

text \<open>
  The foreign key descriptor of the host framework. Reading returns the cached object
  when there is one; otherwise it loads the row the attribute points to (\<open>None\<close> for a
  null attribute), caches it and returns it. Writing stores the key and caches the object.
\<close>

definition descriptor_get :: "nat option \<Rightarrow> world \<Rightarrow> (error + tag option) \<times> world" where
  "descriptor_get val w =
     (case cache w of
        Some rel_obj \<Rightarrow> (Inr rel_obj, w)
      | None \<Rightarrow>
          (case val of
             None \<Rightarrow> (Inr None, w\<lparr>cache := Some None\<rparr>)
           | Some p \<Rightarrow>
               (case filter (\<lambda>r. row_pk r = p) (table w) of
                  [] \<Rightarrow> (Inl DoesNotExist, logged (OpLoad p) w)
                | [r] \<Rightarrow>
                    (Inr (Some (tag_of_row r)),
                     logged (OpLoad p) (w\<lparr>cache := Some (Some (tag_of_row r))\<rparr>))
                | _ \<Rightarrow> (Inl MultipleObjectsReturned, logged (OpLoad p) w))))"

definition descriptor_set :: "tag option \<Rightarrow> world \<Rightarrow> world" where
  "descriptor_set v w =
     w\<lparr>attname := Some (case v of None \<Rightarrow> None | Some t \<Rightarrow> pk t), cache := Some v\<rparr>"

text \<open>
  The related manager of the host framework, for the instance's \<open>TagField\<close>: \<open>all()\<close>
  loads the related rows; \<open>add\<close> relates the objects that are not related yet;
  \<open>remove\<close> deletes the relation to the objects.
\<close>

definition pks_of :: "tag list \<Rightarrow> nat list" where
  "pks_of ts = concat (map (\<lambda>t. case pk t of None \<Rightarrow> [] | Some p \<Rightarrow> [p]) ts)"

definition all_tags :: "world \<Rightarrow> tag list" where
  "all_tags w = map tag_of_row (filter (\<lambda>r. row_pk r \<in> set (rel w)) (table w))"

definition old_add :: "tag list \<Rightarrow> world \<Rightarrow> world" where
  "old_add objs w =
     logged (OpRelAdd (pks_of objs))
       (w\<lparr>rel := rel w @ remdups (filter (\<lambda>p. p \<notin> set (rel w)) (pks_of objs))\<rparr>)"

definition old_remove :: "tag list \<Rightarrow> world \<Rightarrow> world" where
  "old_remove objs w =
     logged (OpRelRemove (pks_of objs))
       (w\<lparr>rel := filter (\<lambda>p. p \<notin> set (pks_of objs)) (rel w)\<rparr>)"


section \<open>tagulous/models/managers.py\<close>

text \<open>
  The options a manager reads from \<open>self.tag_options\<close>. \<open>max_count\<close> is tested for
  truth: zero means that no maximum is set.
\<close>

record tag_options =
  case_sensitive :: bool
  force_lowercase :: bool
  max_count :: int

text \<open>
  What the two managers share: the options, whether \<open>self.instance\<close> is true, and the
  flag \<open>changed\<close>. A method returns its result or the exception it raised, together
  with the manager and the world as they are when it returns or raises.
\<close>

record base_tag_manager =
  options :: tag_options
  has_instance :: bool
  changed :: bool

text \<open>
  The look-up that \<open>SingleTagManager.get\<close>, \<open>_ensure_tags_db\<close> and \<open>set_tag_list\<close>
  each write out: by name when the field is case sensitive, by \<open>name__iexact\<close> otherwise.
\<close>

definition lookup :: "host \<Rightarrow> tag_options \<Rightarrow> string \<Rightarrow> world \<Rightarrow> (error + tag) \<times> world" where
  "lookup H opts nm w =
     (if case_sensitive opts then objects_get H False nm w else objects_get H True nm w)"

subsection \<open>SingleTagManager\<close>

record single_tag_manager = base_tag_manager +
  required :: bool
  tag_cache :: "tag option"
  tag_name :: "string option"
  removed_tag :: "tag option"

definition flush_actual :: "world \<Rightarrow> world" where
  "flush_actual w = (case cache w of None \<Rightarrow> w | Some c \<Rightarrow> w\<lparr>cache := None\<rparr>)"

definition get_actual :: "world \<Rightarrow> (error + tag option) \<times> world" where
  "get_actual w =
     (case attname w of
        None \<Rightarrow> (Inr None, w)
      | Some val \<Rightarrow> descriptor_get val w)"

definition set_actual :: "tag option \<Rightarrow> world \<Rightarrow> world" where
  "set_actual v w = descriptor_set v w"

definition SingleTagManager_init ::
  "tag_options \<Rightarrow> bool \<Rightarrow> bool \<Rightarrow> world \<Rightarrow> (error + single_tag_manager) \<times> world" where
  "SingleTagManager_init opts inst req w =
     (case get_actual w of
        (Inl e, w') \<Rightarrow> (Inl e, w')
      | (Inr actual, w') \<Rightarrow>
          (Inr \<lparr>options = opts, has_instance = inst, changed = False, required = req,
                tag_cache = actual,
                tag_name = (case actual of None \<Rightarrow> None | Some t \<Rightarrow> Some (name t)),
                removed_tag = None\<rparr>, w'))"

definition SingleTagManager_get ::
  "host \<Rightarrow> single_tag_manager \<Rightarrow> world \<Rightarrow> (error + tag option) \<times> single_tag_manager \<times> world" where
  "SingleTagManager_get H m w =
     (if changed m then
        (case tag_name m of
           None \<Rightarrow> (Inr None, m, w)
         | Some nm \<Rightarrow>
             if nm = [] then (Inr None, m, w)
             else
               (case lookup H (options m) nm w of
                  (Inr t, w') \<Rightarrow> (Inr (Some t), m, w')
                | (Inl DoesNotExist, w') \<Rightarrow>
                    (if tag_cache m = None then
                       (Inr (Some \<lparr>pk = None, name = nm, protected = False\<rparr>),
                        m\<lparr>tag_cache := Some \<lparr>pk = None, name = nm, protected = False\<rparr>\<rparr>, w')
                     else (Inr (tag_cache m), m, w'))
                | (Inl e, w') \<Rightarrow> (Inl e, m, w')))
      else
        (case get_actual w of (r, w') \<Rightarrow> (r, m, w')))"

text \<open>
  The values \<open>set\<close> is given: \<open>None\<close>, a string or a tag. Only \<open>None\<close> and the empty
  string are false.
\<close>

datatype set_value = VNone | VStr string | VTag tag

definition set_tag_name :: "host \<Rightarrow> tag_options \<Rightarrow> set_value \<Rightarrow> string option" where
  "set_tag_name H opts v =
     (case v of
        VNone \<Rightarrow> Some []
      | VStr s \<Rightarrow>
          (if s = [] then Some []
           else
             (let v' = (if force_lowercase opts then py_lower H s else s);
                  stripped = filter (\<lambda>c. c \<noteq> CHR 0x22) v'
              in if stripped = [] then None else Some stripped))
      | VTag t \<Rightarrow> Some (name t))"

definition SingleTagManager_set :: "host \<Rightarrow> single_tag_manager \<Rightarrow> set_value \<Rightarrow> single_tag_manager" where
  "SingleTagManager_set H m v =
     (if tag_name m = set_tag_name H (options m) v then m
      else m\<lparr>changed := True, tag_name := set_tag_name H (options m) v, tag_cache := None\<rparr>)"

text \<open>
  \<open>pre_save_handler\<close>. The tag that \<open>get\<close> returns without a primary key is the object
  held in \<open>self.tag_cache\<close>, so saving it writes the new key to the cached object too.
\<close>

definition pre_save_handler ::
  "host \<Rightarrow> single_tag_manager \<Rightarrow> world \<Rightarrow> (error + unit) \<times> single_tag_manager \<times> world" where
  "pre_save_handler H m w =
     (case SingleTagManager_get H m w of
        (Inl e, m1, w1) \<Rightarrow> (Inl e, m1, w1)
      | (Inr new_tag, m1, w1) \<Rightarrow>
          if new_tag = None \<and> required m1 then (Inl ValidationError, m1, w1)
          else if \<not> changed m1 then (Inr (), m1, w1)
          else
            (case get_actual (flush_actual w1) of
               (Inl e, w2) \<Rightarrow> (Inl e, m1, w2)
             | (Inr old, w2) \<Rightarrow>
                 (case new_tag of
                    None \<Rightarrow>
                      (Inr (), m1\<lparr>removed_tag := old, changed := False\<rparr>, set_actual None w2)
                  | Some t \<Rightarrow>
                      if \<not> truthy_pk t then
                        (case tag_save t w2 of
                           (t', w3) \<Rightarrow>
                             (Inr (),
                              m1\<lparr>removed_tag := old,
                                 tag_cache := (if tag_cache m1 = Some t then Some t'
                                               else tag_cache m1),
                                 changed := False\<rparr>,
                              set_actual (Some t') (increment t' w3)))
                      else
                        (Inr (), m1\<lparr>removed_tag := old, changed := False\<rparr>,
                         set_actual (Some t) (increment t w2)))))"

definition post_save_handler ::
  "single_tag_manager \<Rightarrow> world \<Rightarrow> (error + unit) \<times> single_tag_manager \<times> world" where
  "post_save_handler m w =
     (case removed_tag m of
        None \<Rightarrow> (Inr (), m, w)
      | Some t \<Rightarrow> (Inr (), m, decrement t w))"

definition post_delete_handler ::
  "single_tag_manager \<Rightarrow> world \<Rightarrow> (error + unit) \<times> single_tag_manager \<times> world" where
  "post_delete_handler m w =
     (case get_actual (flush_actual w) of
        (Inl e, w1) \<Rightarrow> (Inl e, m, w1)
      | (Inr None, w1) \<Rightarrow> (Inr (), m, w1)
      | (Inr (Some old_tag), w1) \<Rightarrow>
          (Inr (),
           (if \<not> changed m then m\<lparr>tag_name := Some (name old_tag)\<rparr> else m)
             \<lparr>tag_cache := None, changed := True\<rparr>,
           set_actual None (decrement old_tag w1)))"

subsection \<open>RelatedManagerTagMixin\<close>

record related_manager = base_tag_manager +
  tags :: "tag list"

definition reload :: "related_manager \<Rightarrow> world \<Rightarrow> related_manager \<times> world" where
  "reload m w = (m\<lparr>tags := all_tags w, changed := False\<rparr>, logged OpAll w)"

text \<open>The body of the loop of \<open>_ensure_tags_db\<close>, and the loop.\<close>

definition ensure_tag_db :: "host \<Rightarrow> tag_options \<Rightarrow> tag \<Rightarrow> world \<Rightarrow> (error + tag) \<times> world" where
  "ensure_tag_db H opts t w =
     (if truthy_pk t then (Inr t, w)
      else
        (case lookup H opts (name t) w of
           (Inr db_tag, w') \<Rightarrow> (Inr db_tag, w')
         | (Inl DoesNotExist, w') \<Rightarrow>
             (case objects_create (name t) False w' of (db_tag, w'') \<Rightarrow> (Inr db_tag, w''))
         | (Inl e, w') \<Rightarrow> (Inl e, w')))"

fun ensure_tags_db :: "host \<Rightarrow> tag_options \<Rightarrow> tag list \<Rightarrow> world \<Rightarrow> (error + tag list) \<times> world" where
  "ensure_tags_db H opts [] w = (Inr [], w)"
| "ensure_tags_db H opts (t # ts) w =
     (case ensure_tag_db H opts t w of
        (Inl e, w') \<Rightarrow> (Inl e, w')
      | (Inr db_tag, w') \<Rightarrow>
          (case ensure_tags_db H opts ts w' of
             (Inl e, w'') \<Rightarrow> (Inl e, w'')
           | (Inr db_tags, w'') \<Rightarrow> (Inr (db_tag # db_tags), w'')))"

text \<open>
  The arguments of \<open>_add\<close> and \<open>_remove\<close> are strings or tags. A string given to
  \<open>_add\<close> is created as a tag at once, with the tag model's default for \<open>protected\<close>.
\<close>

datatype obj = Str string | Obj tag

fun strings_to_new_tags :: "obj list \<Rightarrow> world \<Rightarrow> tag list \<times> world" where
  "strings_to_new_tags [] w = ([], w)"
| "strings_to_new_tags (Str s # objs) w =
     (case objects_create s False w of
        (t, w') \<Rightarrow> (case strings_to_new_tags objs w' of (ts, w'') \<Rightarrow> (t # ts, w'')))"
| "strings_to_new_tags (Obj t # objs) w =
     (case strings_to_new_tags objs w of (ts, w') \<Rightarrow> (t # ts, w'))"

definition increment_all :: "tag list \<Rightarrow> world \<Rightarrow> world" where
  "increment_all ts w = foldl (\<lambda>w' t. increment t w') w ts"

definition decrement_all :: "tag list \<Rightarrow> world \<Rightarrow> world" where
  "decrement_all ts w = foldl (\<lambda>w' t. decrement t w') w ts"

definition RelatedManager_add ::
  "host \<Rightarrow> related_manager \<Rightarrow> obj list \<Rightarrow> world \<Rightarrow> (error + unit) \<times> related_manager \<times> world" where
  "RelatedManager_add H m objs w =
     (case strings_to_new_tags objs w of
        (new_tags, w1) \<Rightarrow>
          (case reload m w1 of
             (m1, w2) \<Rightarrow>
               if max_count (options m1) \<noteq> 0 \<and>
                  int (length (tags m1)) + int (length new_tags) > max_count (options m1)
               then (Inl ValueError, m1, w2)
               else
                 (case ensure_tags_db H (options m1) new_tags w2 of
                    (Inl e, w3) \<Rightarrow> (Inl e, m1, w3)
                  | (Inr db_tags, w3) \<Rightarrow>
                      (Inr (), m1\<lparr>tags := tags m1 @ new_tags\<rparr>,
                       increment_all new_tags (old_add db_tags w3)))))"

fun strings_to_rm_tags :: "host \<Rightarrow> obj list \<Rightarrow> world \<Rightarrow> (error + tag list) \<times> world" where
  "strings_to_rm_tags H [] w = (Inr [], w)"
| "strings_to_rm_tags H (Str s # objs) w =
     (case objects_get H False s w of
        (Inr t, w') \<Rightarrow>
          (case strings_to_rm_tags H objs w' of
             (Inl e, w'') \<Rightarrow> (Inl e, w'')
           | (Inr ts, w'') \<Rightarrow> (Inr (t # ts), w''))
      | (Inl DoesNotExist, w') \<Rightarrow> strings_to_rm_tags H objs w'
      | (Inl e, w') \<Rightarrow> (Inl e, w'))"
| "strings_to_rm_tags H (Obj t # objs) w =
     (case strings_to_rm_tags H objs w of
        (Inl e, w') \<Rightarrow> (Inl e, w')
      | (Inr ts, w') \<Rightarrow> (Inr (t # ts), w'))"

definition RelatedManager_remove ::
  "host \<Rightarrow> related_manager \<Rightarrow> obj list \<Rightarrow> world \<Rightarrow> (error + unit) \<times> related_manager \<times> world" where
  "RelatedManager_remove H m objs w =
     (case strings_to_rm_tags H objs w of
        (Inl e, w1) \<Rightarrow> (Inl e, m, w1)
      | (Inr given, w1) \<Rightarrow>
          (case reload m w1 of
             (m1, w2) \<Rightarrow>
               (let rm_tags = filter (\<lambda>t. tag_in t given) (tags m1);
                    m2 = m1\<lparr>tags := filter (\<lambda>t. \<not> tag_in t rm_tags) (tags m1)\<rparr>
                in case ensure_tags_db H (options m2) rm_tags w2 of
                     (Inl e, w3) \<Rightarrow> (Inl e, m2, w3)
                   | (Inr db_tags, w3) \<Rightarrow>
                       (Inr (), m2, decrement_all rm_tags (old_remove db_tags w3)))))"

text \<open>
  \<open>save\<close> calls \<open>self.add\<close> and \<open>self.remove\<close>. The descriptor that builds the manager
  is not among the sources; as the comment above \<open>_add\<close> says, it switches \<open>_add\<close> and
  \<open>_remove\<close> into place as \<open>add\<close> and \<open>remove\<close>, and keeps the host framework's
  methods as \<open>_old_add\<close> and \<open>_old_remove\<close>.

  The first loop runs over \<open>new_tags\<close> and tests against \<open>self.tags\<close> as it is at each
  turn; the second runs over the list that \<open>self.tags\<close> is when the loop begins.
\<close>

fun save_add_loop ::
  "host \<Rightarrow> tag list \<Rightarrow> related_manager \<Rightarrow> world \<Rightarrow> (error + unit) \<times> related_manager \<times> world" where
  "save_add_loop H [] m w = (Inr (), m, w)"
| "save_add_loop H (new_tag # rest) m w =
     (if \<not> tag_in new_tag (tags m) then
        (case RelatedManager_add H m [Obj new_tag] w of
           (Inl e, m', w') \<Rightarrow> (Inl e, m', w')
         | (Inr u, m', w') \<Rightarrow> save_add_loop H rest m' w')
      else save_add_loop H rest m w)"

fun save_remove_loop ::
  "host \<Rightarrow> tag list \<Rightarrow> tag list \<Rightarrow> related_manager \<Rightarrow> world
     \<Rightarrow> (error + unit) \<times> related_manager \<times> world" where
  "save_remove_loop H new_tags [] m w = (Inr (), m, w)"
| "save_remove_loop H new_tags (old_tag # rest) m w =
     (if \<not> tag_in old_tag new_tags then
        (case RelatedManager_remove H m [Obj old_tag] w of
           (Inl e, m', w') \<Rightarrow> (Inl e, m', w')
         | (Inr u, m', w') \<Rightarrow> save_remove_loop H new_tags rest m' w')
      else save_remove_loop H new_tags rest m w)"

definition save ::
  "host \<Rightarrow> related_manager \<Rightarrow> bool \<Rightarrow> world \<Rightarrow> (error + unit) \<times> related_manager \<times> world" where
  "save H m force w =
     (if \<not> changed m \<and> \<not> force then (Inr (), m, w)
      else
        (case ensure_tags_db H (options m) (tags m) w of
           (Inl e, w1) \<Rightarrow> (Inl e, m, w1)
         | (Inr new_tags, w1) \<Rightarrow>
             (case reload m w1 of
                (m1, w2) \<Rightarrow>
                  (case save_add_loop H new_tags m1 w2 of
                     (Inl e, m2, w3) \<Rightarrow> (Inl e, m2, w3)
                   | (Inr u, m2, w3) \<Rightarrow>
                       (case save_remove_loop H new_tags (tags m2) m2 w3 of
                          (Inl e, m3, w4) \<Rightarrow> (Inl e, m3, w4)
                        | (Inr u', m3, w4) \<Rightarrow>
                            (Inr (), m3\<lparr>tags := new_tags, changed := False\<rparr>, w4))))))"

text \<open>
  \<open>set_tag_list\<close>. \<open>old_tags\<close> and \<open>cmp_new_names\<close> are dictionaries keyed by the
  comparison name; the first loop runs over the items of \<open>old_tags\<close>, the second over
  the values left in \<open>cmp_new_names\<close>. A dictionary is iterated in the order in which
  its keys were first assigned; where the interpreter iterates in another order, the
  new tag list is a permutation of the one computed here.
\<close>

definition cmp_name :: "host \<Rightarrow> tag_options \<Rightarrow> string \<Rightarrow> string" where
  "cmp_name H opts nm = (if case_sensitive opts then nm else py_lower H nm)"

definition dict_del :: "'k \<Rightarrow> ('k \<times> 'v) list \<Rightarrow> ('k \<times> 'v) list" where
  "dict_del k d = filter (\<lambda>e. fst e \<noteq> k) d"

fun staying_loop ::
  "(string \<times> tag) list \<Rightarrow> (string \<times> string) list \<Rightarrow> tag list \<Rightarrow> related_manager
     \<Rightarrow> tag list \<times> (string \<times> string) list \<times> related_manager" where
  "staying_loop [] cmp_new_names new_tags m = (new_tags, cmp_new_names, m)"
| "staying_loop (item # old_items) cmp_new_names new_tags m =
     (if fst item \<in> dict_keys cmp_new_names
      then staying_loop old_items (dict_del (fst item) cmp_new_names) (new_tags @ [snd item]) m
      else staying_loop old_items cmp_new_names new_tags (m\<lparr>changed := True\<rparr>))"

fun finding_loop ::
  "host \<Rightarrow> string list \<Rightarrow> tag list \<Rightarrow> related_manager \<Rightarrow> world
     \<Rightarrow> (error + tag list) \<times> related_manager \<times> world" where
  "finding_loop H [] new_tags m w = (Inr new_tags, m, w)"
| "finding_loop H (nm # rest) new_tags m w =
     (case lookup H (options m) nm w of
        (Inr t, w') \<Rightarrow> finding_loop H rest (new_tags @ [t]) (m\<lparr>changed := True\<rparr>) w'
      | (Inl DoesNotExist, w') \<Rightarrow>
          finding_loop H rest (new_tags @ [\<lparr>pk = None, name = nm, protected = False\<rparr>])
            (m\<lparr>changed := True\<rparr>) w'
      | (Inl e, w') \<Rightarrow> (Inl e, m, w'))"

definition set_tag_list ::
  "host \<Rightarrow> related_manager \<Rightarrow> string list \<Rightarrow> world \<Rightarrow> (error + unit) \<times> related_manager \<times> world" where
  "set_tag_list H m tag_names w =
     (if \<not> has_instance m then
        (Inl (AttributeError ''Method is only accessible via an instance''), m, w)
      else if max_count (options m) \<noteq> 0 \<and> int (length tag_names) > max_count (options m)
      then (Inl ValueError, m, w)
      else
        (let names = (if force_lowercase (options m) then map (py_lower H) tag_names else tag_names);
             old_tags = dict_of (map (\<lambda>t. (cmp_name H (options m) (name t), t)) (tags m));
             cmp_new_names = dict_of (map (\<lambda>n. (cmp_name H (options m) n, n)) names)
         in case staying_loop old_tags cmp_new_names [] m of
              (kept, left, m1) \<Rightarrow>
                (case finding_loop H (map snd left) kept m1 w of
                   (Inl e, m2, w') \<Rightarrow> (Inl e, m2, w')
                 | (Inr new_tags, m2, w') \<Rightarrow> (Inr (), m2\<lparr>tags := new_tags\<rparr>, w'))))"



section \<open>Predicates and example states used by the properties\<close>

subsection \<open>TagOptions\<close>

text \<open>
  A name is a recognized option name when \<open>__setattr__\<close> accepts it: it is \<open>initial\<close>
  or a key of \<open>OPTION_DEFAULTS\<close>.
\<close>

definition recognized :: "pydict \<Rightarrow> string \<Rightarrow> bool" where
  "recognized D n = (n = ''initial'' \<or> n \<in> dict_keys D)"

definition stores_only_recognized :: "pydict \<Rightarrow> pydict \<Rightarrow> bool" where
  "stores_only_recognized D self = (\<forall>k \<in> dict_keys self. recognized D k)"

definition options_inv :: "pydict \<Rightarrow> pydict \<Rightarrow> bool" where
  "options_inv D self = (\<forall>k \<in> dict_keys self. recognized D k \<or> k = ''initial_string'')"

text \<open>A name is found on the class when the ordinary look-up resolves it on the type.\<close>

definition on_class :: "string \<Rightarrow> bool" where
  "on_class n = (n \<in> set type_slots \<or> n \<in> set class_attributes)"

definition example_defaults :: pydict where
  "example_defaults =
     [(''initial'', PStr []), (''case_sensitive'', PBool False),
      (''force_lowercase'', PBool False), (''max_count'', PInt 0)]"

definition example_parse_tags :: "string \<Rightarrow> string list" where
  "example_parse_tags s = (if s = [] then [] else [s])"

definition example_render_tags :: "pyval \<Rightarrow> string" where
  "example_render_tags v = (case v of PStr s \<Rightarrow> s | PList (x # xs) \<Rightarrow> x | _ \<Rightarrow> [])"


subsection \<open>SingleTagManager\<close>

text \<open>
  Saving the instance fires the pre-save signal and, once the instance is written, the
  post-save signal. (The write of the instance itself touches nothing modelled here.)
\<close>

definition save_instance ::
  "host \<Rightarrow> single_tag_manager \<Rightarrow> world \<Rightarrow> (error + unit) \<times> single_tag_manager \<times> world" where
  "save_instance H m w =
     (case pre_save_handler H m w of
        (Inl e, m', w') \<Rightarrow> (Inl e, m', w')
      | (Inr u, m', w') \<Rightarrow> post_save_handler m' w')"

text \<open>
  The instance stores the tag of row \<open>r\<close> when its foreign key holds the key of \<open>r\<close>
  and \<open>r\<close> is the one row of the table with that key; it stores no tag when the
  foreign key is null or not set.
\<close>

definition stored_tag :: "world \<Rightarrow> tag_row \<Rightarrow> bool" where
  "stored_tag w r =
     (attname w = Some (Some (row_pk r)) \<and>
      filter (\<lambda>r'. row_pk r' = row_pk r) (table w) = [r])"

definition no_stored_tag :: "world \<Rightarrow> bool" where
  "no_stored_tag w = (attname w = None \<or> attname w = Some None)"

definition count_down :: "nat \<Rightarrow> tag_row list \<Rightarrow> tag_row list" where
  "count_down p rows =
     map (\<lambda>r. if row_pk r = p then r\<lparr>row_count := row_count r - 1\<rparr> else r) rows"

definition count_up :: "nat \<Rightarrow> tag_row list \<Rightarrow> tag_row list" where
  "count_up p rows =
     map (\<lambda>r. if row_pk r = p then r\<lparr>row_count := row_count r + 1\<rparr> else r) rows"

text \<open>
  The host of the examples: their names are made of ASCII letters, on which lowercasing
  and the folding of the database both replace \<open>A\<close> to \<open>Z\<close> by \<open>a\<close> to \<open>z\<close>.
\<close>

definition ascii_lower_char :: "char \<Rightarrow> char" where
  "ascii_lower_char c =
     (case map_of (zip ''ABCDEFGHIJKLMNOPQRSTUVWXYZ'' ''abcdefghijklmnopqrstuvwxyz'') c of
        None \<Rightarrow> c
      | Some d \<Rightarrow> d)"

definition ascii_lower :: "string \<Rightarrow> string" where
  "ascii_lower s = map ascii_lower_char s"

definition example_host :: host where
  "example_host = \<lparr>py_lower = ascii_lower, db_fold = ascii_lower\<rparr>"

definition example_options :: tag_options where
  "example_options = \<lparr>case_sensitive = False, force_lowercase = False, max_count = 0\<rparr>"

definition example_apple :: tag_row where
  "example_apple = \<lparr>row_pk = 1, row_name = ''Apple'', row_count = 1, row_protected = False\<rparr>"

definition example_berry :: tag_row where
  "example_berry = \<lparr>row_pk = 2, row_name = ''Berry'', row_count = 0, row_protected = False\<rparr>"

text \<open>
  A table of two tags; the instance stores \<open>Apple\<close> in its \<open>SingleTagField\<close> and is
  related to \<open>Apple\<close> through its \<open>TagField\<close>.
\<close>

definition example_world :: world where
  "example_world =
     \<lparr>table = [example_apple, example_berry], next_pk = 3, attname = Some (Some 1),
      cache = None, rel = [1], log = []\<rparr>"

text \<open>The manager as \<open>__init__\<close> builds it in that world.\<close>

definition example_single :: single_tag_manager where
  "example_single =
     \<lparr>options = example_options, has_instance = True, changed = False, required = False,
      tag_cache = Some (tag_of_row example_apple), tag_name = Some ''Apple'',
      removed_tag = None\<rparr>"

definition example_first_save :: "(error + unit) \<times> single_tag_manager \<times> world" where
  "example_first_save =
     save_instance example_host (SingleTagManager_set example_host example_single (VStr ''berry'')) example_world"

definition example_second_save :: "(error + unit) \<times> single_tag_manager \<times> world" where
  "example_second_save =
     save_instance example_host (fst (snd example_first_save)) (snd (snd example_first_save))"


subsection \<open>RelatedManagerTagMixin\<close>

text \<open>
  The database invariants the host framework keeps: primary keys are positive, unique
  and below the next key; the relation refers to rows of the table, once each.
\<close>

definition wf_world :: "world \<Rightarrow> bool" where
  "wf_world w =
     (distinct (map row_pk (table w)) \<and>
      (\<forall>p \<in> row_pk ` set (table w). 0 < p \<and> p < next_pk w) \<and>
      0 < next_pk w \<and>
      set (rel w) \<subseteq> row_pk ` set (table w) \<and>
      distinct (rel w))"

text \<open>
  \<open>db_key\<close> is the name as the field's look-up compares it in the database: the name
  itself for a case sensitive field, the name as the database folds it otherwise. No two
  rows of the table have the same name under that comparison.
\<close>

definition db_key :: "host \<Rightarrow> tag_options \<Rightarrow> string \<Rightarrow> string" where
  "db_key H opts nm = (if case_sensitive opts then nm else db_fold H nm)"

definition unique_names :: "host \<Rightarrow> tag_options \<Rightarrow> world \<Rightarrow> bool" where
  "unique_names H opts w = distinct (map (\<lambda>r. db_key H opts (row_name r)) (table w))"

text \<open>A tag is in the table when a row has its primary key.\<close>

definition in_table :: "world \<Rightarrow> tag \<Rightarrow> bool" where
  "in_table w t = (\<exists>r \<in> set (table w). pk t = Some (row_pk r))"

definition known_tags :: "world \<Rightarrow> tag list \<Rightarrow> bool" where
  "known_tags w ts = (\<forall>t \<in> set ts. truthy_pk t \<longrightarrow> in_table w t)"

text \<open>
  \<open>grown w w'\<close>: from \<open>w\<close> to \<open>w'\<close> rows were only appended to the table, each with a
  counter of zero and a fresh key; the instance is as it was.
\<close>

definition grown :: "world \<Rightarrow> world \<Rightarrow> bool" where
  "grown w w' =
     (\<exists>created. table w' = table w @ created \<and>
        (\<forall>r \<in> set created. row_count r = 0 \<and> next_pk w \<le> row_pk r) \<and>
        rel w' = rel w \<and> attname w' = attname w \<and> cache w' = cache w \<and>
        next_pk w \<le> next_pk w')"

text \<open>\<open>adjust f\<close> adds \<open>f pk\<close> to the counter of the row with key \<open>pk\<close>.\<close>

definition adjust :: "(nat \<Rightarrow> int) \<Rightarrow> tag_row list \<Rightarrow> tag_row list" where
  "adjust f rows = map (\<lambda>r. r\<lparr>row_count := row_count r + f (row_pk r)\<rparr>) rows"


text \<open>
  The related manager as \<open>__init_tagulous__\<close> builds it in the example world, for a
  field that allows one tag; and a manager without maximum whose desired tags are
  \<open>Berry\<close> and a tag \<open>cherry\<close> that has no row yet.
\<close>

definition example_related :: related_manager where
  "example_related =
     \<lparr>options = example_options\<lparr>max_count := 1\<rparr>, has_instance = True, changed = False,
      tags = [tag_of_row example_apple]\<rparr>"

definition example_desired :: related_manager where
  "example_desired =
     \<lparr>options = example_options, has_instance = True, changed = True,
      tags = [tag_of_row example_berry, \<lparr>pk = None, name = ''cherry'', protected = False\<rparr>]\<rparr>"


text \<open>
  What a name that is not among the current tags becomes: the tag of the row that the
  field's look-up matches with the name, or, when the table has no such row, a new tag
  that is not saved.
\<close>

definition resolve :: "host \<Rightarrow> tag_options \<Rightarrow> world \<Rightarrow> string \<Rightarrow> tag" where
  "resolve H opts w n =
     (case find (\<lambda>r. db_key H opts (row_name r) = db_key H opts n) (table w) of
        None \<Rightarrow> \<lparr>pk = None, name = n, protected = False\<rparr>
      | Some r \<Rightarrow> tag_of_row r)"

definition unsaved :: "string \<Rightarrow> tag" where
  "unsaved n = \<lparr>pk = None, name = n, protected = False\<rparr>"

text \<open>
  \<open>found_for H opts w n t\<close>: the tag \<open>t\<close> is what the field's look-up makes of the name
  \<open>n\<close> in the world \<open>w\<close>: the tag of the one row that matches, or, when no row
  matches, a new tag of that name that is not saved.
\<close>

definition found_for :: "host \<Rightarrow> tag_options \<Rightarrow> world \<Rightarrow> string \<Rightarrow> tag \<Rightarrow> bool" where
  "found_for H opts w n t =
     ((\<exists>r. filter (matches H (\<not> case_sensitive opts) n) (table w) = [r] \<and> t = tag_of_row r) \<or>
      (t = unsaved n \<and> filter (matches H (\<not> case_sensitive opts) n) (table w) = []))"


text \<open>
  A manager without maximum for the instance of the example world, as
  \<open>__init_tagulous__\<close> builds it; and the manager and the world after \<open>_add\<close> was given
  the string \<open>apple\<close>: the instance is related to \<open>Apple\<close> and to \<open>apple\<close>.
\<close>

definition example_loaded :: related_manager where
  "example_loaded =
     \<lparr>options = example_options, has_instance = True, changed = False,
      tags = [tag_of_row example_apple]\<rparr>"

definition example_two_apples :: related_manager where
  "example_two_apples =
     \<lparr>options = example_options, has_instance = True, changed = False,
      tags = [tag_of_row example_apple, \<lparr>pk = Some 3, name = ''apple'', protected = False\<rparr>]\<rparr>"

definition example_world_two_apples :: world where
  "example_world_two_apples =
     \<lparr>table = [example_apple, example_berry,
               \<lparr>row_pk = 3, row_name = ''apple'', row_count = 1, row_protected = False\<rparr>],
      next_pk = 4, attname = Some (Some 1), cache = None, rel = [1, 3],
      log = [OpInsert 3 ''apple'', OpAll, OpRelAdd [3], OpCount (Some 3) 1]\<rparr>"


section \<open>Properties of TagOptions\<close>

lemma dict_keys_Nil [simp]: "dict_keys [] = {}"
  by (simp add: dict_keys_def)

lemma dict_keys_dict_set [simp]: "dict_keys (dict_set k v d) = insert k (dict_keys d)"
  by (induction d) (auto simp: dict_keys_def)

lemma map_of_dict_set [simp]: "map_of (dict_set k v d) = (map_of d)(k \<mapsto> v)"
  by (induction d) (auto simp: fun_eq_iff)

lemma dict_keys_dict_update [simp]: "dict_keys (dict_update d ps) = dict_keys d \<union> fst ` set ps"
  unfolding dict_update_def by (induction ps arbitrary: d) auto

lemma dict_keys_dict_of [simp]: "dict_keys (dict_of ps) = fst ` set ps"
  by (simp add: dict_of_def)

lemma map_of_eq_None_keys: "map_of d k = None \<longleftrightarrow> k \<notin> dict_keys d"
  by (simp add: dict_keys_def map_of_eq_None_iff)

lemma setattr_inv:
  "options_inv D self \<Longrightarrow> TagOptions_setattr D p r self n v = Inr self' \<Longrightarrow> options_inv D self'"
  by (auto simp: TagOptions_setattr_def options_inv_def recognized_def
      split: if_splits pyval.splits)

lemma setattr_rejects:
  "\<not> recognized D n \<Longrightarrow> TagOptions_setattr D p r self n v = Inl (AttributeError n)"
  by (simp add: TagOptions_setattr_def recognized_def)

lemma setattr_accepts:
  "recognized D n \<Longrightarrow> \<exists>self'. TagOptions_setattr D p r self n v = Inr self'"
  by (auto simp: TagOptions_setattr_def recognized_def split: pyval.splits)

lemma init_loop_inv:
  "options_inv D self \<Longrightarrow> TagOptions_init_loop D p r self kw = Inr self' \<Longrightarrow> options_inv D self'"
proof (induction kw arbitrary: self)
  case Nil
  then show ?case by simp
next
  case (Cons kv kw)
  then show ?case by (auto split: sum.splits dest: setattr_inv)
qed

lemma init_inv: "TagOptions_init D p r kw = Inr self' \<Longrightarrow> options_inv D self'"
  unfolding TagOptions_init_def by (rule init_loop_inv[of D "[]"]) (auto simp: options_inv_def)

lemma init_loop_total:
  "\<forall>k \<in> fst ` set kw. recognized D k \<Longrightarrow> \<exists>self'. TagOptions_init_loop D p r self kw = Inr self'"
proof (induction kw arbitrary: self)
  case Nil
  then show ?case by simp
next
  case (Cons kv kw)
  then obtain s1 where "TagOptions_setattr D p r self (fst kv) (snd kv) = Inr s1"
    using setattr_accepts[of D "fst kv"] by fastforce
  with Cons show ?case by auto
qed

lemma items_without_defaults:
  "TagOptions_items D self False = Inr (dict_of (filter (\<lambda>kv. fst kv \<in> set (map fst D)) self))"
  by (simp add: TagOptions_items_def TagOptions_get_items_def)

lemma add_total_inv: "\<exists>res. TagOptions_add D p r self other = Inr res \<and> options_inv D res"
proof -
  let ?dct = "dict_of (filter (\<lambda>kv. fst kv \<in> set (map fst D)) self)"
  let ?oth = "dict_of (filter (\<lambda>kv. fst kv \<in> set (map fst D)) other)"
  have "dict_keys ?dct \<subseteq> dict_keys D" "dict_keys ?oth \<subseteq> dict_keys D"
    by (auto simp: dict_keys_def[of D])
  then have "dict_keys (dict_update ?dct ?oth) \<subseteq> dict_keys D"
    unfolding dict_keys_dict_update by (auto simp: dict_keys_def)
  then have keys: "\<forall>k \<in> fst ` set (dict_update ?dct ?oth). recognized D k"
    by (auto simp: recognized_def dict_keys_def)
  obtain res where res: "TagOptions_init_loop D p r [] (dict_update ?dct ?oth) = Inr res"
    using init_loop_total[OF keys] by blast
  then have "TagOptions_add D p r self other = Inr res"
    by (simp add: TagOptions_add_def items_without_defaults TagOptions_init_def)
  moreover have "options_inv D res"
    using res init_inv[of D p r] by (simp add: TagOptions_init_def)
  ultimately show ?thesis by blast
qed

lemma read_option:
  "map_of D n = Some dflt \<Longrightarrow> n \<notin> set PROPERTIES \<Longrightarrow> \<not> on_class n \<Longrightarrow>
   TagOptions_getattribute D self n = Inr (dict_get self n dflt)"
  by (auto simp: TagOptions_getattribute_def TagOptions_getattr_def dict_subscript_def
      dict_get_def dict_keys_def on_class_def
      split: option.splits dest: map_of_SomeD intro: rev_image_eqI)

lemma read_other:
  assumes "options_inv D self" and "''initial'' \<in> dict_keys D"
    and "n \<notin> dict_keys D" and "n \<notin> set PROPERTIES" and "\<not> on_class n"
  shows "TagOptions_getattribute D self n = Inl (AttributeError n)"
proof -
  have "n \<notin> dict_keys self"
    using assms by (auto simp: options_inv_def recognized_def PROPERTIES_def)
  then have "map_of self n = None"
    by (simp add: map_of_eq_None_keys)
  then show ?thesis
    using assms(3,4,5)
    by (simp add: TagOptions_getattribute_def TagOptions_getattr_def on_class_def)
qed

lemma on_class_not_initial: "on_class n \<Longrightarrow> n \<noteq> ''initial'' \<and> n \<noteq> ''initial_string''"
  by (auto simp: on_class_def type_slots_def class_attributes_def)

lemma read_class:
  assumes "options_inv D self" and "on_class n" and "n \<notin> dict_keys D"
  shows "TagOptions_getattribute D self n = Inr (PAttr n)"
proof -
  have "n \<notin> dict_keys self"
    using assms on_class_not_initial[of n] by (auto simp: options_inv_def recognized_def)
  then have "map_of self n = None"
    by (simp add: map_of_eq_None_keys)
  then show ?thesis
    using assms(2) by (auto simp: TagOptions_getattribute_def on_class_def)
qed

text \<open>
  C10 (as amended). A \<open>TagOptions\<close> object stores only recognized option names and,
  beside them, the key \<open>initial_string\<close> that setting \<open>initial\<close> writes. This is
  preserved by \<open>__setattr__\<close>, established by \<open>__init__\<close> and by \<open>__add__\<close>, which
  never raises. Setting a name that is neither \<open>initial\<close> nor in \<open>OPTION_DEFAULTS\<close>
  raises \<open>AttributeError\<close> (and returns no changed object). Reading a name of
  \<open>OPTION_DEFAULTS\<close> that is not one of \<open>PROPERTIES\<close> and not found on the class
  succeeds with the stored value, or the default when none is stored. When \<open>initial\<close>
  is in \<open>OPTION_DEFAULTS\<close>, reading any name outside \<open>OPTION_DEFAULTS\<close> and
  \<open>PROPERTIES\<close> that is not found on the class raises \<open>AttributeError\<close>. A name found
  on the class, such as \<open>items\<close> or \<open>__dict__\<close>, that is not in \<open>OPTION_DEFAULTS\<close> reads
  as the attribute of the class, without an exception.
\<close>

theorem TagOptions_stored_names:
  assumes "options_inv D self"
  shows "(TagOptions_setattr D p r self n v = Inr self' \<longrightarrow> options_inv D self') \<and>
         (TagOptions_init D p r kw = Inr made \<longrightarrow> options_inv D made) \<and>
         (\<exists>res. TagOptions_add D p r self other = Inr res \<and> options_inv D res) \<and>
         (\<not> recognized D bad \<longrightarrow>
            TagOptions_setattr D p r self bad v = Inl (AttributeError bad)) \<and>
         (map_of D opt = Some dflt \<and> opt \<notin> set PROPERTIES \<and> \<not> on_class opt \<longrightarrow>
            TagOptions_getattribute D self opt = Inr (dict_get self opt dflt)) \<and>
         (''initial'' \<in> dict_keys D \<and> x \<notin> dict_keys D \<and> x \<notin> set PROPERTIES \<and>
          \<not> on_class x \<longrightarrow>
            TagOptions_getattribute D self x = Inl (AttributeError x)) \<and>
         (on_class c \<and> c \<notin> dict_keys D \<longrightarrow>
            TagOptions_getattribute D self c = Inr (PAttr c))"
  using assms setattr_inv[of D self p r n v self'] init_inv[of D p r kw made]
    add_total_inv[of D p r self other] setattr_rejects[of D bad p r self v]
    read_option[of D opt dflt self] read_other[of D self x] read_class[of D self c]
  by blast

theorem TagOptions_stored_names_witness:
  "options_inv example_defaults [(''max_count'', PInt 3)] \<and>
   TagOptions_setattr example_defaults example_parse_tags example_render_tags
       [(''max_count'', PInt 3)] ''initial'' (PStr ''a'')
     = Inr [(''max_count'', PInt 3), (''initial_string'', PStr ''a''), (''initial'', PList [''a''])] \<and>
   options_inv example_defaults
     [(''max_count'', PInt 3), (''initial_string'', PStr ''a''), (''initial'', PList [''a''])] \<and>
   TagOptions_init example_defaults example_parse_tags example_render_tags
       [(''case_sensitive'', PBool True)] = Inr [(''case_sensitive'', PBool True)] \<and>
   options_inv example_defaults [(''case_sensitive'', PBool True)] \<and>
   (\<exists>res. TagOptions_add example_defaults example_parse_tags example_render_tags
             [(''max_count'', PInt 3)] [(''initial_string'', PStr ''b''), (''initial'', PList [''b''])]
           = Inr res \<and> options_inv example_defaults res) \<and>
   \<not> recognized example_defaults ''colour'' \<and>
   TagOptions_setattr example_defaults example_parse_tags example_render_tags
       [(''max_count'', PInt 3)] ''colour'' (PStr ''a'') = Inl (AttributeError ''colour'') \<and>
   map_of example_defaults ''max_count'' = Some (PInt 0) \<and>
   ''max_count'' \<notin> set PROPERTIES \<and>
   \<not> on_class ''max_count'' \<and>
   TagOptions_getattribute example_defaults [(''max_count'', PInt 3)] ''max_count'' = Inr (PInt 3) \<and>
   ''initial'' \<in> dict_keys example_defaults \<and>
   ''colour'' \<notin> dict_keys example_defaults \<and>
   ''colour'' \<notin> set PROPERTIES \<and>
   \<not> on_class ''colour'' \<and>
   TagOptions_getattribute example_defaults [(''max_count'', PInt 3)] ''colour''
     = Inl (AttributeError ''colour'') \<and>
   on_class ''items'' \<and>
   ''items'' \<notin> dict_keys example_defaults \<and>
   TagOptions_getattribute example_defaults [(''max_count'', PInt 3)] ''items''
     = Inr (PAttr ''items'')"
proof -
  let ?D = example_defaults and ?s = "[(''max_count'', PInt 3)]"
  let ?s1 = "[(''max_count'', PInt 3), (''initial_string'', PStr ''a''), (''initial'', PList [''a''])]"
  have inv: "options_inv ?D ?s"
    by (simp add: options_inv_def recognized_def example_defaults_def dict_keys_def)
  have st: "TagOptions_setattr ?D example_parse_tags example_render_tags ?s ''initial'' (PStr ''a'') = Inr ?s1"
    by (simp add: TagOptions_setattr_def example_parse_tags_def)
  have ini: "TagOptions_init ?D example_parse_tags example_render_tags
       [(''case_sensitive'', PBool True)] = Inr [(''case_sensitive'', PBool True)]"
    by (simp add: TagOptions_init_def TagOptions_setattr_def example_defaults_def dict_keys_def)
  have bad: "\<not> recognized ?D ''colour''"
    by (simp add: recognized_def example_defaults_def dict_keys_def)
  have opt: "map_of ?D ''max_count'' = Some (PInt 0)" "''max_count'' \<notin> set PROPERTIES"
    "\<not> on_class ''max_count''"
    by (simp_all add: example_defaults_def PROPERTIES_def on_class_def type_slots_def
        class_attributes_def)
  have oth: "''initial'' \<in> dict_keys ?D" "''colour'' \<notin> dict_keys ?D" "''colour'' \<notin> set PROPERTIES"
    "\<not> on_class ''colour''" "on_class ''items''" "''items'' \<notin> dict_keys ?D"
    by (simp_all add: example_defaults_def PROPERTIES_def dict_keys_def on_class_def
        type_slots_def class_attributes_def)
  have rd: "dict_get ?s ''max_count'' (PInt 0) = PInt 3"
    by (simp add: dict_get_def)
  note T = TagOptions_stored_names[OF inv, where p = example_parse_tags and r = example_render_tags
      and n = "''initial''" and v = "PStr ''a''" and self' = ?s1
      and kw = "[(''case_sensitive'', PBool True)]" and made = "[(''case_sensitive'', PBool True)]"
      and other = "[(''initial_string'', PStr ''b''), (''initial'', PList [''b''])]"
      and bad = "''colour''" and opt = "''max_count''" and dflt = "PInt 0" and x = "''colour''"
      and c = "''items''"]
  show ?thesis
    using T inv st ini bad opt oth rd
    by simp
qed

text \<open>
  C10 as stated fails: after \<open>initial\<close> is set on an empty object, the object stores
  the key \<open>initial_string\<close>, which \<open>__setattr__\<close> does not accept as an option name.
\<close>

theorem TagOptions_stored_names_counterexample:
  "TagOptions_setattr example_defaults example_parse_tags example_render_tags [] ''initial'' (PStr ''a'')
     = Inr [(''initial_string'', PStr ''a''), (''initial'', PList [''a''])] \<and>
   \<not> stores_only_recognized example_defaults
        [(''initial_string'', PStr ''a''), (''initial'', PList [''a''])]"
  by (simp add: TagOptions_setattr_def example_parse_tags_def stores_only_recognized_def
      recognized_def example_defaults_def dict_keys_def)


section \<open>Properties of SingleTagManager\<close>

lemma flush_actual_eq: "flush_actual w = w\<lparr>cache := None\<rparr>"
  by (cases "cache w") (simp_all add: flush_actual_def)

lemma objects_get_frame: "objects_get H ie nm w = (r, w') \<Longrightarrow> w' = logged (OpGet ie nm) w"
  by (auto simp: objects_get_def split: list.splits)

lemma lookup_frame:
  "lookup H opts nm w = (r, w') \<Longrightarrow> w' = logged (OpGet (\<not> case_sensitive opts) nm) w"
  by (auto simp: lookup_def dest: objects_get_frame split: if_splits)

lemma descriptor_get_frame:
  "descriptor_get val w = (r, w') \<Longrightarrow>
     table w' = table w \<and> attname w' = attname w \<and> rel w' = rel w \<and> next_pk w' = next_pk w"
  by (auto simp: descriptor_get_def logged_def split: option.splits list.splits)

lemma get_actual_frame:
  "get_actual w = (r, w') \<Longrightarrow>
     table w' = table w \<and> attname w' = attname w \<and> rel w' = rel w \<and> next_pk w' = next_pk w"
  by (auto simp: get_actual_def dest: descriptor_get_frame split: option.splits)

lemma get_None_unchanged: "SingleTagManager_get H m w = (Inr None, m1, w1) \<Longrightarrow> m1 = m"
  by (auto simp: SingleTagManager_get_def
      split: if_splits option.splits prod.splits sum.splits error.splits)

lemma get_frame:
  "SingleTagManager_get H m w = (r, m1, w1) \<Longrightarrow>
     table w1 = table w \<and> attname w1 = attname w \<and> rel w1 = rel w \<and> next_pk w1 = next_pk w"
  by (auto simp: SingleTagManager_get_def logged_def dest!: lookup_frame get_actual_frame
      split: if_splits option.splits prod.splits sum.splits error.splits)

lemmas example_defs = example_options_def example_apple_def example_berry_def
  example_world_def example_single_def

lemmas single_defs = SingleTagManager_set_def set_tag_name_def SingleTagManager_get_def
  pre_save_handler_def post_save_handler_def post_delete_handler_def save_instance_def
  get_actual_def flush_actual_def set_actual_def descriptor_get_def descriptor_set_def
  lookup_def objects_get_def matches_def example_host_def ascii_lower_def ascii_lower_char_def tag_of_row_def truthy_pk_def
  increment_def decrement_def change_count_def logged_def tag_save_def

text \<open>
  C9. Whenever the tag that \<open>get\<close> resolves is \<open>None\<close> and the field is required,
  \<open>pre_save_handler\<close> raises \<open>ValidationError\<close>, whether or not the field has changed;
  the manager is as it was, and so are the table, the instance's foreign key and its
  relation (\<open>get\<close> has at most filled the descriptor's cache).
\<close>

theorem pre_save_handler_required:
  assumes "required m" and "SingleTagManager_get H m w = (Inr None, m1, w1)"
  shows "pre_save_handler H m w = (Inl ValidationError, m, w1) \<and>
         table w1 = table w \<and> attname w1 = attname w \<and> rel w1 = rel w \<and>
         next_pk w1 = next_pk w"
proof -
  have "m1 = m"
    using assms(2) by (rule get_None_unchanged)
  then show ?thesis
    using assms get_frame[OF assms(2)] by (simp add: pre_save_handler_def)
qed

theorem pre_save_handler_required_witness:
  "required (example_single\<lparr>required := True\<rparr>) \<and>
   \<not> changed (example_single\<lparr>required := True\<rparr>) \<and>
   SingleTagManager_get example_host (example_single\<lparr>required := True\<rparr>) (example_world\<lparr>attname := Some None\<rparr>)
     = (Inr None, example_single\<lparr>required := True\<rparr>,
        example_world\<lparr>attname := Some None, cache := Some None\<rparr>) \<and>
   pre_save_handler example_host (example_single\<lparr>required := True\<rparr>) (example_world\<lparr>attname := Some None\<rparr>)
     = (Inl ValidationError, example_single\<lparr>required := True\<rparr>,
        example_world\<lparr>attname := Some None, cache := Some None\<rparr>)"
proof -
  let ?m = "example_single\<lparr>required := True\<rparr>"
  let ?w = "example_world\<lparr>attname := Some None\<rparr>"
  have r: "required ?m" "\<not> changed ?m"
    by (simp_all add: example_defs)
  have g: "SingleTagManager_get example_host ?m ?w = (Inr None, ?m, ?w\<lparr>cache := Some None\<rparr>)"
    by (simp add: example_defs single_defs)
  show ?thesis
    using r g pre_save_handler_required[OF r(1) g] by simp
qed

lemma get_actual_flushed_stored:
  "stored_tag w r \<Longrightarrow>
   get_actual (flush_actual w) =
     (Inr (Some (tag_of_row r)),
      logged (OpLoad (row_pk r)) (w\<lparr>cache := Some (Some (tag_of_row r))\<rparr>))"
  by (simp add: stored_tag_def get_actual_def flush_actual_eq descriptor_get_def logged_def)

lemma get_actual_flushed_none:
  "no_stored_tag w \<Longrightarrow>
   get_actual (flush_actual w) =
     (Inr None, w\<lparr>cache := (if attname w = None then None else Some None)\<rparr>)"
  by (auto simp: no_stored_tag_def get_actual_def flush_actual_eq descriptor_get_def)

lemma post_delete_stored:
  assumes "stored_tag w r"
  shows "\<exists>m' w'. post_delete_handler m w = (Inr (), m', w') \<and>
           table w' = count_down (row_pk r) (table w) \<and>
           attname w' = Some None \<and>
           changed m' \<and> tag_cache m' = None \<and>
           tag_name m' = (if changed m then tag_name m else Some (row_name r))"
  using get_actual_flushed_stored[OF assms]
  by (simp add: post_delete_handler_def set_actual_def descriptor_set_def decrement_def
      change_count_def logged_def count_down_def tag_of_row_def)

lemma post_delete_none:
  assumes "no_stored_tag w"
  shows "\<exists>w'. post_delete_handler m w = (Inr (), m, w') \<and>
           table w' = table w \<and> attname w' = attname w \<and> rel w' = rel w \<and>
           next_pk w' = next_pk w \<and> log w' = log w"
  using get_actual_flushed_none[OF assms]
  by (simp add: post_delete_handler_def)

lemma filter_count_down:
  "filter (matches H ie nm) (count_down p rows) = count_down p (filter (matches H ie nm) rows)"
  by (induction rows) (auto simp: count_down_def matches_def)

lemma count_up_down:
  "map (\<lambda>r. if row_pk r = p then r\<lparr>row_count := row_count r + 1\<rparr> else r)
     (count_down p rows) = rows"
  by (induction rows) (auto simp: count_down_def)

lemma stored_tag_rows:
  assumes "stored_tag w r" and "r' \<in> set (table w)" and "row_pk r' = row_pk r"
  shows "r' = r"
proof -
  have f: "filter (\<lambda>x. row_pk x = row_pk r) (table w) = [r]"
    using assms(1) by (simp add: stored_tag_def)
  have "r' \<in> set (filter (\<lambda>x. row_pk x = row_pk r) (table w))"
    using assms(2,3) by simp
  then have "r' \<in> set [r]"
    by (simp only: f)
  then show ?thesis by simp
qed

lemma count_down_pks: "map row_pk (count_down p rows) = map row_pk rows"
  by (induction rows) (simp_all add: count_down_def)

lemma count_down_set_pks: "row_pk ` set (count_down p rows) = row_pk ` set rows"
  using count_down_pks[of p rows] by (metis set_map)

lemma resave_count_down:
  assumes "stored_tag w r"
  shows "map (\<lambda>r'. if row_pk r' = row_pk r
                    then r'\<lparr>row_name := name (tag_of_row r),
                            row_protected := protected (tag_of_row r)\<rparr>
                    else r')
           (count_down (row_pk r) (table w)) = count_down (row_pk r) (table w)"
  unfolding count_down_def map_map
  by (rule map_cong[OF refl]) (auto simp: tag_of_row_def dest: stored_tag_rows[OF assms])

lemma post_delete_restore:
  assumes st: "stored_tag w r" and nc: "\<not> changed m" and nm: "row_name r \<noteq> []"
    and uniq: "filter (matches H (\<not> case_sensitive (options m)) (row_name r)) (table w) = [r]"
  shows "\<exists>m' w' m'' w''. post_delete_handler m w = (Inr (), m', w') \<and>
           pre_save_handler H m' w' = (Inr (), m'', w'') \<and>
           attname w'' = Some (Some (row_pk r)) \<and> table w'' = table w \<and> \<not> changed m''"
proof -
  let ?w1 = "logged (OpLoad (row_pk r)) (w\<lparr>cache := Some (Some (tag_of_row r))\<rparr>)"
  let ?w' = "set_actual None (decrement (tag_of_row r) ?w1)"
  let ?m' = "m\<lparr>tag_name := Some (row_name r), tag_cache := None, changed := True\<rparr>"
  have pd: "post_delete_handler m w = (Inr (), ?m', ?w')"
    using get_actual_flushed_stored[OF st] nc
    by (simp add: post_delete_handler_def tag_of_row_def)
  have tab: "table ?w' = count_down (row_pk r) (table w)"
    by (simp add: set_actual_def descriptor_set_def decrement_def change_count_def logged_def
        count_down_def tag_of_row_def)
  have att: "attname ?w' = Some None" "cache ?w' = Some None"
    by (simp_all add: set_actual_def descriptor_set_def)
  have "filter (matches H (\<not> case_sensitive (options m)) (row_name r)) (table ?w')
          = [r\<lparr>row_count := row_count r - 1\<rparr>]"
    unfolding tab filter_count_down uniq by (simp add: count_down_def)
  then have lk: "lookup H (options ?m') (row_name r) ?w' =
      (Inr (tag_of_row r), logged (OpGet (\<not> case_sensitive (options m)) (row_name r)) ?w')"
    by (auto simp: lookup_def objects_get_def tag_of_row_def)
  let ?w2 = "logged (OpGet (\<not> case_sensitive (options m)) (row_name r)) ?w'"
  have g: "SingleTagManager_get H ?m' ?w' = (Inr (Some (tag_of_row r)), ?m', ?w2)"
    using nm lk by (simp add: SingleTagManager_get_def)
  have ga: "get_actual (flush_actual ?w2) = (Inr None, ?w2)"
    using att by (simp add: get_actual_def flush_actual_eq descriptor_get_def logged_def)
  have t2: "table ?w2 = count_down (row_pk r) (table w)"
    using tab by (simp add: logged_def)
  have rin: "r \<in> set (table w)"
  proof -
    have f: "filter (\<lambda>x. row_pk x = row_pk r) (table w) = [r]"
      using st by (simp add: stored_tag_def)
    have "r \<in> set (filter (\<lambda>x. row_pk x = row_pk r) (table w))"
      by (simp only: f) simp
    then show ?thesis by simp
  qed
  let ?w3u = "logged (OpUpdate (row_pk r)) (?w2\<lparr>table := count_down (row_pk r) (table w)\<rparr>)"
  have mem: "row_pk r \<in> row_pk ` set (count_down (row_pk r) (table w))"
    unfolding count_down_set_pks using rin by simp
  have pkt: "pk (tag_of_row r) = Some (row_pk r)" "name (tag_of_row r) = row_name r"
    "protected (tag_of_row r) = row_protected r"
    by (simp_all add: tag_of_row_def)
  have sv: "tag_save (tag_of_row r) ?w2 = (tag_of_row r, ?w3u)"
    using mem by (simp add: tag_save_def pkt(1) t2 resave_count_down[OF st])
  let ?w3 = "if truthy_pk (tag_of_row r) then ?w2 else ?w3u"
  let ?w'' = "set_actual (Some (tag_of_row r)) (increment (tag_of_row r) ?w3)"
  have ps: "pre_save_handler H ?m' ?w' =
      (Inr (), ?m'\<lparr>removed_tag := None, changed := False\<rparr>, ?w'')"
    using g ga sv by (simp add: pre_save_handler_def)
  have "table ?w3 = count_down (row_pk r) (table w)"
    using t2 by (simp add: logged_def)
  then have "table ?w'' = table w"
    by (simp add: set_actual_def descriptor_set_def increment_def change_count_def logged_def
        tag_of_row_def count_up_down)
  moreover have "attname ?w'' = Some (Some (row_pk r))"
    by (simp add: set_actual_def descriptor_set_def tag_of_row_def)
  ultimately show ?thesis
    using pd ps by simp
qed

text \<open>
  C6 (as amended). When the instance stores a tag, \<open>post_delete_handler\<close> decrements
  the counter of that tag's row by one, clears the stored association, and marks the
  manager changed: if the manager had no pending change it takes the old tag's name; if
  a change was pending, the pending name is kept. In the first case, when the old tag's
  name is not empty and its row is the one row that the field's look-up matches with
  that name, \<open>pre_save_handler\<close> on the manager and the world that
  \<open>post_delete_handler\<close> left returns normally, with the foreign key on the same row
  again and the table, counters included, as it was before the deletion. When no tag is
  stored, the manager, the table, the foreign key, the relation and the log stay as they
  were.
\<close>

theorem post_delete_handler_effect:
  "(stored_tag w r \<longrightarrow>
      (\<exists>m' w'. post_delete_handler m w = (Inr (), m', w') \<and>
         table w' = count_down (row_pk r) (table w) \<and> attname w' = Some None \<and>
         changed m' \<and> tag_cache m' = None \<and>
         tag_name m' = (if changed m then tag_name m else Some (row_name r)))) \<and>
   (stored_tag w r \<and> \<not> changed m \<and> row_name r \<noteq> [] \<and>
    filter (matches H (\<not> case_sensitive (options m)) (row_name r)) (table w) = [r] \<longrightarrow>
      (\<exists>m' w' m'' w''. post_delete_handler m w = (Inr (), m', w') \<and>
         pre_save_handler H m' w' = (Inr (), m'', w'') \<and>
         attname w'' = Some (Some (row_pk r)) \<and> table w'' = table w \<and> \<not> changed m'')) \<and>
   (no_stored_tag w \<longrightarrow>
      (\<exists>w'. post_delete_handler m w = (Inr (), m, w') \<and>
         table w' = table w \<and> attname w' = attname w \<and> rel w' = rel w \<and>
         next_pk w' = next_pk w \<and> log w' = log w))"
  using post_delete_stored[where w = w and r = r and m = m]
    post_delete_restore[where H = H and w = w and r = r and m = m]
    post_delete_none[where w = w and m = m]
  by blast

theorem post_delete_handler_effect_witness:
  "stored_tag example_world example_apple \<and>
   \<not> changed example_single \<and> row_name example_apple \<noteq> [] \<and>
   filter (matches example_host (\<not> case_sensitive (options example_single)) (row_name example_apple))
     (table example_world) = [example_apple] \<and>
   (\<exists>m' w'. post_delete_handler example_single example_world = (Inr (), m', w') \<and>
      table w' = count_down (row_pk example_apple) (table example_world) \<and>
      attname w' = Some None \<and> changed m' \<and> tag_cache m' = None \<and>
      tag_name m' = Some (row_name example_apple)) \<and>
   (\<exists>m' w' m'' w''. post_delete_handler example_single example_world = (Inr (), m', w') \<and>
      pre_save_handler example_host m' w' = (Inr (), m'', w'') \<and>
      attname w'' = Some (Some (row_pk example_apple)) \<and> table w'' = table example_world \<and>
      \<not> changed m'') \<and>
   no_stored_tag (example_world\<lparr>attname := Some None\<rparr>) \<and>
   (\<exists>w'. post_delete_handler example_single (example_world\<lparr>attname := Some None\<rparr>)
            = (Inr (), example_single, w') \<and>
      table w' = table example_world \<and> attname w' = Some None \<and> rel w' = rel example_world \<and>
      next_pk w' = next_pk example_world \<and> log w' = log example_world)"
proof -
  have st: "stored_tag example_world example_apple"
    by (simp add: stored_tag_def example_defs)
  have h: "\<not> changed example_single" "row_name example_apple \<noteq> []"
    "filter (matches example_host (\<not> case_sensitive (options example_single)) (row_name example_apple))
       (table example_world) = [example_apple]"
    by (simp_all add: example_defs matches_def example_host_def ascii_lower_def ascii_lower_char_def)
  have ns: "no_stored_tag (example_world\<lparr>attname := Some None\<rparr>)"
    by (simp add: no_stored_tag_def)
  show ?thesis
    using st h ns
      post_delete_handler_effect[where H = example_host and w = example_world
        and r = example_apple and m = example_single]
      post_delete_handler_effect[where H = example_host
        and w = "example_world\<lparr>attname := Some None\<rparr>"
        and r = example_apple and m = example_single]
    by simp
qed

text \<open>
  C6 as stated fails when a change is pending: the instance stores \<open>Apple\<close>, the
  manager has been set to \<open>berry\<close>; after \<open>post_delete_handler\<close> the manager holds
  \<open>berry\<close>, not the old tag's name, and saving again associates row 2. Without a
  pending change, saving again does not restore the association either when a second
  row matches the old tag's name (the table holds \<open>Apple\<close> and \<open>apple\<close> and the field
  is not case sensitive: the look-up raises \<open>MultipleObjectsReturned\<close>), or when the
  old tag's name is empty (\<open>get\<close> then resolves to no tag, and the foreign key stays
  null).
\<close>

theorem post_delete_handler_counterexample:
  "stored_tag example_world example_apple \<and>
   row_name example_apple = ''Apple'' \<and>
   tag_name (fst (snd (post_delete_handler
      (SingleTagManager_set example_host example_single (VStr ''berry'')) example_world))) = Some ''berry'' \<and>
   attname (snd (snd (pre_save_handler example_host
      (fst (snd (post_delete_handler
         (SingleTagManager_set example_host example_single (VStr ''berry'')) example_world)))
      (snd (snd (post_delete_handler
         (SingleTagManager_set example_host example_single (VStr ''berry'')) example_world)))))) = Some (Some 2) \<and>
   stored_tag example_world_two_apples example_apple \<and> \<not> changed example_single \<and>
   fst (pre_save_handler example_host
      (fst (snd (post_delete_handler example_single example_world_two_apples)))
      (snd (snd (post_delete_handler example_single example_world_two_apples)))) =
     Inl MultipleObjectsReturned \<and>
   stored_tag (example_world\<lparr>table := [example_apple\<lparr>row_name := []\<rparr>, example_berry]\<rparr>)
     (example_apple\<lparr>row_name := []\<rparr>) \<and>
   pre_save_handler example_host
      (fst (snd (post_delete_handler example_single
         (example_world\<lparr>table := [example_apple\<lparr>row_name := []\<rparr>, example_berry]\<rparr>))))
      (snd (snd (post_delete_handler example_single
         (example_world\<lparr>table := [example_apple\<lparr>row_name := []\<rparr>, example_berry]\<rparr>)))) =
     (Inr (),
      example_single\<lparr>tag_name := Some [], tag_cache := None, changed := False\<rparr>,
      example_world\<lparr>table := [example_apple\<lparr>row_name := [], row_count := 0\<rparr>, example_berry],
        attname := Some None, cache := Some None,
        log := [OpLoad 1, OpCount (Some 1) (- 1)]\<rparr>)"
  by (simp add: stored_tag_def example_defs single_defs example_world_two_apples_def
      decrement_def increment_def change_count_def logged_def)

lemma example_first_save_value:
  "example_first_save =
     (Inr (),
      \<lparr>options = example_options, has_instance = True, changed = False, required = False,
       tag_cache = None, tag_name = Some ''berry'',
       removed_tag = Some (tag_of_row example_apple)\<rparr>,
      \<lparr>table = [example_apple\<lparr>row_count := 0\<rparr>, example_berry\<lparr>row_count := 1\<rparr>],
       next_pk = 3, attname = Some (Some 2),
       cache = Some (Some (tag_of_row example_berry)), rel = [1],
       log = [OpGet True ''berry'', OpLoad 1, OpCount (Some 2) 1, OpCount (Some 1) (- 1)]\<rparr>)"
  by (simp add: example_first_save_def example_defs single_defs)

text \<open>
  C2, evaluated where the code departs from it. The instance stores \<open>Apple\<close> (counter
  1); the field is set to \<open>berry\<close> and the instance is saved: \<open>Berry\<close> goes from 0 to
  1 and \<open>Apple\<close> from 1 to 0. The manager is then unchanged, but \<open>removed_tag\<close> still
  holds \<open>Apple\<close>. Saving the instance a second time, with the field unchanged, leaves
  the association as it is and decrements \<open>Apple\<close> again, to -1.
\<close>

theorem post_save_handler_decrements_again:
  "fst example_first_save = Inr () \<and>
   map row_count (table (snd (snd example_first_save))) = [0, 1] \<and>
   \<not> changed (fst (snd example_first_save)) \<and>
   removed_tag (fst (snd example_first_save)) = Some (tag_of_row example_apple) \<and>
   fst example_second_save = Inr () \<and>
   attname (snd (snd example_second_save)) = attname (snd (snd example_first_save)) \<and>
   map row_count (table (snd (snd example_second_save))) = [- 1, 1]"
  unfolding example_second_save_def example_first_save_value
  by (simp add: example_defs single_defs)


section \<open>Properties of RelatedManagerTagMixin\<close>

lemma matches_cmp:
  "matches H (\<not> case_sensitive opts) nm r \<longleftrightarrow> db_key H opts (row_name r) = db_key H opts nm"
  by (simp add: matches_def db_key_def)

lemma filter_key_distinct:
  "distinct (map f xs) \<Longrightarrow>
   filter (\<lambda>x. f x = k) xs = (case find (\<lambda>x. f x = k) xs of None \<Rightarrow> [] | Some x \<Rightarrow> [x])"
proof (induction xs)
  case Nil
  then show ?case by simp
next
  case (Cons x xs)
  show ?case
  proof (cases "f x = k")
    case True
    have "\<forall>y \<in> set xs. f y \<noteq> k"
      using Cons.prems True by (auto simp: image_iff)
    then have "filter (\<lambda>y. f y = k) xs = []"
      by (simp add: filter_empty_conv)
    with True show ?thesis by simp
  next
    case False
    with Cons show ?thesis by simp
  qed
qed

lemma lookup_unique:
  assumes "unique_names H opts w"
  shows "lookup H opts nm w =
     ((case find (\<lambda>r. db_key H opts (row_name r) = db_key H opts nm) (table w) of
         None \<Rightarrow> Inl DoesNotExist
       | Some r \<Rightarrow> Inr (tag_of_row r)),
      logged (OpGet (\<not> case_sensitive opts) nm) w)"
proof -
  have m: "matches H (\<not> case_sensitive opts) nm =
      (\<lambda>r. db_key H opts (row_name r) = db_key H opts nm)"
    by (rule ext) (simp add: matches_cmp)
  have f: "filter (matches H (\<not> case_sensitive opts) nm) (table w) =
      (case find (\<lambda>r. db_key H opts (row_name r) = db_key H opts nm) (table w) of
         None \<Rightarrow> [] | Some r \<Rightarrow> [r])"
    using filter_key_distinct[of "\<lambda>r. db_key H opts (row_name r)" "table w" "db_key H opts nm"] assms
    by (simp add: m unique_names_def)
  have "lookup H opts nm w = objects_get H (\<not> case_sensitive opts) nm w"
    by (simp add: lookup_def)
  then show ?thesis
    by (simp add: objects_get_def f split: option.splits)
qed

lemma grown_refl: "grown w w"
  by (simp add: grown_def)

lemma grown_trans: "grown w w' \<Longrightarrow> grown w' w'' \<Longrightarrow> grown w w''"
  unfolding grown_def by (elim exE conjE, rule_tac x = "created @ createda" in exI) auto

lemma grown_logged: "grown w (logged ev w)"
  by (simp add: grown_def logged_def)

lemma wf_logged [simp]: "wf_world (logged ev w) = wf_world w"
  by (simp add: wf_world_def logged_def)

lemma unique_logged [simp]: "unique_names H opts (logged ev w) = unique_names H opts w"
  by (simp add: unique_names_def logged_def)

lemma in_table_grown: "grown w w' \<Longrightarrow> in_table w t \<Longrightarrow> in_table w' t"
  by (auto simp: grown_def in_table_def)

lemma known_tags_grown: "grown w w' \<Longrightarrow> known_tags w ts \<Longrightarrow> known_tags w' ts"
  by (auto simp: known_tags_def dest: in_table_grown)

lemma objects_create_eq:
  "objects_create nm b w =
     (\<lparr>pk = Some (next_pk w), name = nm, protected = b\<rparr>,
      logged (OpInsert (next_pk w) nm)
        (w\<lparr>table := table w @ [\<lparr>row_pk = next_pk w, row_name = nm, row_count = 0, row_protected = b\<rparr>],
           next_pk := Suc (next_pk w)\<rparr>))"
  by (simp add: objects_create_def tag_save_def)






lemma adjust_zero [simp]: "adjust (\<lambda>q. 0) rows = rows"
  by (simp add: adjust_def)

lemma adjust_pks [simp]: "map row_pk (adjust f rows) = map row_pk rows"
  by (simp add: adjust_def comp_def)

lemma adjust_names [simp]: "map (\<lambda>r. g (row_name r)) (adjust f rows) = map (\<lambda>r. g (row_name r)) rows"
  by (simp add: adjust_def comp_def)

lemma adjust_set_pks [simp]: "row_pk ` set (adjust f rows) = row_pk ` set rows"
  using adjust_pks[of f rows] by (metis set_map)

lemma tag_of_row_adjust [simp]: "map tag_of_row (adjust f rows) = map tag_of_row rows"
  by (simp add: adjust_def comp_def tag_of_row_def)

lemma filter_pk_adjust:
  "filter (\<lambda>r. P (row_pk r)) (adjust f rows) = adjust f (filter (\<lambda>r. P (row_pk r)) rows)"
  by (induction rows) (auto simp: adjust_def)

lemma pks_of_map_tag_of_row [simp]: "pks_of (map tag_of_row rows) = map row_pk rows"
  by (induction rows) (auto simp: pks_of_def tag_of_row_def)









lemma pks_of_append [simp]: "pks_of (xs @ ys) = pks_of xs @ pks_of ys"
  by (simp add: pks_of_def)










lemma save_unchanged: "\<not> changed m \<Longrightarrow> \<not> force \<Longrightarrow> save H m force w = (Inr (), m, w)"
  by (simp add: save_def)


lemmas related_defs = reload_def all_tags_def ensure_tag_db_def RelatedManager_add_def
  RelatedManager_remove_def save_def set_tag_list_def cmp_name_def dict_of_def dict_update_def
  dict_del_def dict_keys_def old_add_def old_remove_def pks_of_def increment_all_def
  decrement_all_def tag_in_def tag_eq_def objects_create_def

lemma ex_reload: "reload (example_related\<lparr>tags := []\<rparr>) example_world = (example_related, logged OpAll example_world)"
  by (simp add: example_related_def example_defs related_defs single_defs)

lemma ex_set: "set_tag_list example_host example_related [''berry''] example_world =
    (Inr (), example_related\<lparr>tags := [tag_of_row example_berry], changed := True\<rparr>,
     logged (OpGet True ''berry'') example_world)"
  by (simp add: example_related_def example_defs related_defs single_defs)


lemma save_clears_changed: "save H rm force w = (Inr u, rm', w') \<Longrightarrow> \<not> changed rm'"
  by (auto simp: save_def reload_def split: if_splits prod.splits sum.splits)

lemma set_same_name: "tag_name m = set_tag_name H (options m) v \<Longrightarrow> SingleTagManager_set H m v = m"
  by (simp add: SingleTagManager_set_def)

lemma set_idem: "SingleTagManager_set H (SingleTagManager_set H m v) v = SingleTagManager_set H m v"
  by (simp add: SingleTagManager_set_def)


lemma strings_to_new_tags_spec:
  "strings_to_new_tags objs w = (ts, w1) \<Longrightarrow> grown w w1 \<and> length ts = length objs"
proof (induction objs w arbitrary: ts w1 rule: strings_to_new_tags.induct)
  case (1 w)
  then show ?case by (simp add: grown_refl)
next
  case (2 s objs w)
  let ?w' = "snd (objects_create s False w)"
  obtain ts' w'' where r: "strings_to_new_tags objs ?w' = (ts', w'')"
    by (cases "strings_to_new_tags objs ?w'") auto
  have g1: "grown w ?w'"
    by (auto simp: objects_create_eq grown_def logged_def)
  from 2(1)[of "fst (objects_create s False w)" ?w' ts' w''] r
  have "grown ?w' w'' \<and> length ts' = length objs" by simp
  moreover have "ts = fst (objects_create s False w) # ts'" "w1 = w''"
    using 2(2) r by (auto simp: objects_create_eq split: prod.splits)
  ultimately show ?case
    using grown_trans[OF g1] by simp
next
  case (3 t objs w)
  then show ?case by (auto split: prod.splits)
qed

lemma all_tags_grown:
  assumes "grown w w1" and "\<forall>p \<in> set (rel w). p < next_pk w"
  shows "all_tags w1 = all_tags w"
proof -
  from assms(1) obtain created where c: "table w1 = table w @ created"
    "\<forall>r \<in> set created. next_pk w \<le> row_pk r" "rel w1 = rel w"
    by (auto simp: grown_def)
  have "filter (\<lambda>r. row_pk r \<in> set (rel w)) created = []"
    using c(2) assms(2) by (fastforce simp: filter_empty_conv)
  then show ?thesis
    using c by (simp add: all_tags_def)
qed

lemma add_over_max_count:
  assumes "max_count (options m) \<noteq> 0" and "\<forall>p \<in> set (rel w). p < next_pk w"
    and "int (length (all_tags w)) + int (length objs) > max_count (options m)"
  shows "\<exists>m' w'. RelatedManager_add H m objs w = (Inl ValueError, m', w') \<and> grown w w'"
proof -
  obtain ts w1 where s: "strings_to_new_tags objs w = (ts, w1)"
    by (cases "strings_to_new_tags objs w") auto
  then have g: "grown w w1" "length ts = length objs"
    using strings_to_new_tags_spec by auto
  have a: "all_tags w1 = all_tags w"
    using all_tags_grown[OF g(1) assms(2)] .
  have "RelatedManager_add H m objs w = (Inl ValueError, m\<lparr>tags := all_tags w1, changed := False\<rparr>, logged OpAll w1)"
    using s g(2) a assms(1,3) by (simp add: RelatedManager_add_def reload_def)
  moreover have "grown w (logged OpAll w1)"
    using grown_trans[OF g(1) grown_logged] .
  ultimately show ?thesis by blast
qed

lemma set_tag_list_over_max_count:
  "has_instance m \<Longrightarrow> max_count (options m) \<noteq> 0 \<Longrightarrow> int (length names) > max_count (options m) \<Longrightarrow>
   set_tag_list H m names w = (Inl ValueError, m, w)"
  by (simp add: set_tag_list_def)


text \<open>
  C1, evaluated where the code departs from it. The field allows one tag and the
  instance is related to \<open>Apple\<close>; \<open>set_tag_list\<close> accepts the one name \<open>berry\<close>, so
  the desired tags are \<open>Berry\<close> alone and \<open>changed\<close> is true. \<open>save\<close>, whose
  documentation says that it sets the actual tags to the internal tag state, adds
  before it removes: \<open>_add\<close> reloads the persisted tags, counts \<open>Apple\<close> and \<open>Berry\<close>
  as two, and raises \<open>ValueError\<close>. The instance is still related to \<open>Apple\<close> and
  to nothing else, no counter has moved, and the reload has replaced the desired tags
  by the persisted ones and cleared \<open>changed\<close>: saving again returns at once and
  the desired state is lost.
\<close>

theorem save_raises_at_max_count:
  "max_count (options example_related) = 1 \<and>
   all_tags example_world = [tag_of_row example_apple] \<and>
   set_tag_list example_host example_related [''berry''] example_world =
     (Inr (), example_related\<lparr>tags := [tag_of_row example_berry], changed := True\<rparr>,
      logged (OpGet True ''berry'') example_world) \<and>
   save example_host (example_related\<lparr>tags := [tag_of_row example_berry], changed := True\<rparr>) False
       (logged (OpGet True ''berry'') example_world) =
     (Inl ValueError, example_related\<lparr>tags := [tag_of_row example_apple], changed := False\<rparr>,
      example_world\<lparr>log := [OpGet True ''berry'', OpAll, OpAll]\<rparr>) \<and>
   rel (example_world\<lparr>log := [OpGet True ''berry'', OpAll, OpAll]\<rparr>) = [1] \<and>
   table (example_world\<lparr>log := [OpGet True ''berry'', OpAll, OpAll]\<rparr>) = table example_world \<and>
   save example_host (example_related\<lparr>tags := [tag_of_row example_apple], changed := False\<rparr>) False
       (example_world\<lparr>log := [OpGet True ''berry'', OpAll, OpAll]\<rparr>) =
     (Inr (), example_related\<lparr>tags := [tag_of_row example_apple], changed := False\<rparr>,
      example_world\<lparr>log := [OpGet True ''berry'', OpAll, OpAll]\<rparr>)"
  by (simp add: example_related_def example_defs related_defs single_defs)

text \<open>
  C7. \<open>SingleTagManager.set\<close> with a value whose resolved name is the current tag name
  returns the manager as it is; \<open>set\<close> is idempotent. After a \<open>save\<close> that returned
  normally, a second \<open>save\<close> without \<open>force\<close> returns the manager and the world, log
  included, as the first left them.
\<close>

theorem reapplying_is_noop:
  "(tag_name m = set_tag_name H (options m) v \<longrightarrow> SingleTagManager_set H m v = m) \<and>
   SingleTagManager_set H (SingleTagManager_set H m v) v = SingleTagManager_set H m v \<and>
   (save H rm force w = (Inr (), rm', w') \<longrightarrow> save H rm' False w' = (Inr (), rm', w'))"
  using set_same_name[where H = H and m = m and v = v] set_idem[where H = H and m = m and v = v]
    save_clears_changed[where H = H and rm = rm and force = force and w = w and u = "()"
      and rm' = rm' and w' = w']
    save_unchanged[where H = H and m = rm' and force = False and w = w']
  by blast


theorem reapplying_is_noop_witness:
  "tag_name example_single = set_tag_name example_host (options example_single) (VStr ''Apple'') \<and>
   SingleTagManager_set example_host example_single (VStr ''Apple'') = example_single \<and>
   SingleTagManager_set example_host (SingleTagManager_set example_host example_single (VStr ''berry'')) (VStr ''berry'')
     = SingleTagManager_set example_host example_single (VStr ''berry'') \<and>
   (\<exists>rm' w'. save example_host example_desired False example_world = (Inr (), rm', w') \<and>
      save example_host rm' False w' = (Inr (), rm', w'))"
proof -
  have a: "tag_name example_single = set_tag_name example_host (options example_single) (VStr ''Apple'')"
    by (simp add: example_defs set_tag_name_def)
  have "fst (save example_host example_desired False example_world) = Inr ()"
    by (simp add: example_desired_def example_defs related_defs single_defs)
  then obtain rm' w' where s: "save example_host example_desired False example_world = (Inr (), rm', w')"
    by (cases "save example_host example_desired False example_world") auto
  show ?thesis
    using a s
      reapplying_is_noop[where H = example_host and m = example_single and v = "VStr ''Apple''"
        and rm = example_desired and force = False and w = example_world and rm' = rm' and w' = w']
      reapplying_is_noop[where H = example_host and m = example_single and v = "VStr ''berry''"
        and rm = example_desired and force = False and w = example_world and rm' = rm' and w' = w']
    by blast
qed

text \<open>
  C8. With \<open>max_count\<close> set: \<open>set_tag_list\<close> on a manager of an instance, given more
  than \<open>max_count\<close> names, raises \<open>ValueError\<close> with the manager and the world as they
  were. \<open>_add\<close>, when the persisted tags and the objects to add are together more than
  \<open>max_count\<close>, raises \<open>ValueError\<close>; the relation is as it was, the rows of the table
  are as they were, and any row appended (for a string among the objects) has a counter
  of zero. (The keys in the relation are below the next key, as in any well-formed
  world.)
\<close>

theorem max_count_enforced:
  "(has_instance m \<and> max_count (options m) \<noteq> 0 \<and> int (length names) > max_count (options m) \<longrightarrow>
      set_tag_list H m names w = (Inl ValueError, m, w)) \<and>
   (max_count (options m) \<noteq> 0 \<and> (\<forall>p \<in> set (rel w). p < next_pk w) \<and>
    int (length (all_tags w)) + int (length objs) > max_count (options m) \<longrightarrow>
      (\<exists>m' w'. RelatedManager_add H m objs w = (Inl ValueError, m', w') \<and> grown w w'))"
  using set_tag_list_over_max_count[where H = H and m = m and names = names and w = w]
    add_over_max_count[where H = H and m = m and w = w and objs = objs]
  by blast

theorem max_count_enforced_witness:
  "has_instance example_related \<and> max_count (options example_related) \<noteq> 0 \<and>
   int (length [''berry'', ''cherry'']) > max_count (options example_related) \<and>
   set_tag_list example_host example_related [''berry'', ''cherry''] example_world
     = (Inl ValueError, example_related, example_world) \<and>
   list_all (\<lambda>p. p < next_pk example_world) (rel example_world) \<and>
   int (length (all_tags example_world)) + int (length [Str ''cherry''])
     > max_count (options example_related) \<and>
   (\<exists>m' w'. RelatedManager_add example_host example_related [Str ''cherry''] example_world
               = (Inl ValueError, m', w') \<and> grown example_world w')"
proof -
  have a: "has_instance example_related" "max_count (options example_related) \<noteq> 0"
    "int (length [''berry'', ''cherry'']) > max_count (options example_related)"
    "\<forall>p \<in> set (rel example_world). p < next_pk example_world"
    "int (length (all_tags example_world)) + int (length [Str ''cherry''])
       > max_count (options example_related)"
    by (simp_all add: example_related_def example_defs all_tags_def)
  show ?thesis
    using a max_count_enforced[where H = example_host and m = example_related
        and names = "[''berry'', ''cherry'']" and w = example_world and objs = "[Str ''cherry'']"]
    unfolding list_all_iff by blast
qed

lemma dict_set_fresh: "k \<notin> fst ` set d \<Longrightarrow> dict_set k v d = d @ [(k, v)]"
  by (induction d) auto

lemma dict_update_fresh:
  "distinct (map fst (d @ ps)) \<Longrightarrow> dict_update d ps = d @ ps"
proof (induction ps arbitrary: d)
  case Nil
  then show ?case by (simp add: dict_update_def)
next
  case (Cons e ps)
  have "dict_set (fst e) (snd e) d = d @ [e]"
    using Cons.prems by (intro dict_set_fresh[THEN trans]) auto
  moreover have "dict_update (d @ [e]) ps = (d @ [e]) @ ps"
    using Cons.prems by (intro Cons.IH) auto
  ultimately show ?case
    by (simp add: dict_update_def)
qed

lemma dict_of_distinct_keys: "distinct (map fst ps) \<Longrightarrow> dict_of ps = ps"
  using dict_update_fresh[of "[]" ps] by (simp add: dict_of_def)

lemma dict_set_distinct: "distinct (map fst d) \<Longrightarrow> distinct (map fst (dict_set k v d))"
  by (induction d) (auto simp: dict_keys_def[symmetric])

lemma dict_update_distinct: "distinct (map fst d) \<Longrightarrow> distinct (map fst (dict_update d ps))"
  unfolding dict_update_def by (induction ps arbitrary: d) (auto simp: dict_set_distinct)

lemma dict_of_distinct: "distinct (map fst (dict_of ps))"
  by (simp add: dict_of_def dict_update_distinct)

lemma dict_set_entries: "e \<in> set (dict_set k v d) \<Longrightarrow> e \<in> set d \<or> e = (k, v)"
  by (induction d) (auto split: if_splits)

lemma dict_update_entries: "e \<in> set (dict_update d ps) \<Longrightarrow> e \<in> set d \<or> e \<in> set ps"
  unfolding dict_update_def
proof (induction ps arbitrary: d)
  case Nil
  then show ?case by simp
next
  case (Cons a ps)
  then have "e \<in> set (dict_set (fst a) (snd a) d) \<or> e \<in> set ps" by simp
  then show ?case using dict_set_entries[of e "fst a" "snd a" d] by auto
qed

lemma dict_of_entries: "e \<in> set (dict_of ps) \<Longrightarrow> e \<in> set ps"
  using dict_update_entries[of e "[]" ps] by (simp add: dict_of_def)

lemma dict_keys_dict_del [simp]: "dict_keys (dict_del k d) = dict_keys d - {k}"
  by (auto simp: dict_keys_def dict_del_def)

lemma staying_loop_spec:
  assumes "distinct (map fst old)"
  shows "staying_loop old d acc m =
     (acc @ map snd (filter (\<lambda>i. fst i \<in> dict_keys d) old),
      filter (\<lambda>e. fst e \<notin> fst ` set old) d,
      (if \<exists>i \<in> set old. fst i \<notin> dict_keys d then m\<lparr>changed := True\<rparr> else m))"
  using assms
proof (induction old arbitrary: d acc m)
  case Nil
  then show ?case by simp
next
  case (Cons i old)
  have fresh: "fst i \<notin> fst ` set old" and d': "distinct (map fst old)"
    using Cons.prems by auto
  show ?case
  proof (cases "fst i \<in> dict_keys d")
    case True
    have ne: "\<forall>j \<in> set old. fst j \<noteq> fst i"
      using fresh by (metis imageI)
    have f1: "filter (\<lambda>j. fst j \<in> dict_keys (dict_del (fst i) d)) old =
        filter (\<lambda>j. fst j \<in> dict_keys d) old"
      using ne by (auto intro!: filter_cong)
    have f2: "filter (\<lambda>e. fst e \<notin> fst ` set old) (dict_del (fst i) d) =
        filter (\<lambda>e. fst e \<notin> fst ` set (i # old)) d"
      by (auto simp: dict_del_def intro!: filter_cong)
    have f3: "(\<exists>j \<in> set old. fst j \<notin> dict_keys (dict_del (fst i) d)) \<longleftrightarrow>
        (\<exists>j \<in> set (i # old). fst j \<notin> dict_keys d)"
      using ne True by auto
    show ?thesis
      using True Cons.IH[OF d', of "dict_del (fst i) d" "acc @ [snd i]" m]
      unfolding f1 f2 f3 by simp
  next
    case False
    have "\<forall>e \<in> set d. fst e \<noteq> fst i"
      using False unfolding dict_keys_def by (metis imageI)
    then have f2: "filter (\<lambda>e. fst e \<notin> fst ` set old) d = filter (\<lambda>e. fst e \<notin> fst ` set (i # old)) d"
      by (auto intro!: filter_cong)
    show ?thesis
      using False Cons.IH[OF d', of d acc "m\<lparr>changed := True\<rparr>"]
      unfolding f2 by auto
  qed
qed

lemma resolve_log_update [simp]: "resolve H opts (w\<lparr>log := l\<rparr>) = resolve H opts w"
  by (rule ext) (simp add: resolve_def)

lemma resolve_logged [simp]: "resolve H opts (logged ev w) = resolve H opts w"
  by (simp add: logged_def)

lemma lookup_resolve:
  assumes "unique_names H opts w"
  shows "lookup H opts n w =
     ((case find (\<lambda>r. db_key H opts (row_name r) = db_key H opts n) (table w) of
         None \<Rightarrow> Inl DoesNotExist | Some r \<Rightarrow> Inr (resolve H opts w n)),
      logged (OpGet (\<not> case_sensitive opts) n) w)"
  using lookup_unique[OF assms, of n] by (auto simp: resolve_def split: option.splits)

lemma finding_loop_spec:
  assumes "unique_names H (options m) w"
  shows "finding_loop H ns acc m w =
     (Inr (acc @ map (resolve H (options m) w) ns),
      (if ns = [] then m else m\<lparr>changed := True\<rparr>),
      w\<lparr>log := log w @ map (OpGet (\<not> case_sensitive (options m))) ns\<rparr>)"
  using assms
proof (induction ns arbitrary: acc m w)
  case Nil
  then show ?case by simp
next
  case (Cons n ns)
  let ?w' = "logged (OpGet (\<not> case_sensitive (options m)) n) w"
  let ?m' = "m\<lparr>changed := True\<rparr>"
  have u: "unique_names H (options ?m') ?w'"
    using Cons.prems by simp
  have ih: "finding_loop H ns acc' ?m' ?w' =
     (Inr (acc' @ map (resolve H (options m) w) ns), ?m',
      w\<lparr>log := log w @ map (OpGet (\<not> case_sensitive (options m))) (n # ns)\<rparr>)" for acc'
    using Cons.IH[OF u, of acc'] by (auto simp: logged_def)
  show ?case
  proof (cases "find (\<lambda>r. db_key H (options m) (row_name r) = db_key H (options m) n) (table w)")
    case None
    then have "resolve H (options m) w n = \<lparr>pk = None, name = n, protected = False\<rparr>"
      by (simp add: resolve_def)
    then show ?thesis
      using None lookup_resolve[OF Cons.prems, of n] ih by simp
  next
    case (Some r)
    then show ?thesis
      using lookup_resolve[OF Cons.prems, of n] ih by simp
  qed
qed

lemma resolve_key: "db_key H opts (name (resolve H opts w n)) = db_key H opts n"
  by (auto simp: resolve_def tag_of_row_def find_Some_iff split: option.splits)

lemma resolve_cases:
  "resolve H opts w n \<in> tag_of_row ` set (table w) \<or>
   (resolve H opts w n = unsaved n \<and>
    (\<forall>r \<in> set (table w). db_key H opts (row_name r) \<noteq> db_key H opts n))"
  by (auto simp: resolve_def unsaved_def find_Some_iff find_None_iff split: option.splits)

lemma set_tag_list_spec:
  assumes inst: "has_instance m"
    and mx: "max_count (options m) = 0 \<or> int (length tag_names) \<le> max_count (options m)"
    and dist: "distinct (map (\<lambda>t. cmp_name H (options m) (name t)) (tags m))"
    and un: "unique_names H (options m) w"
    and names: "names = (if force_lowercase (options m) then map (py_lower H) tag_names else tag_names)"
  shows "\<exists>m' left. set_tag_list H m tag_names w =
           (Inr (), m', w\<lparr>log := log w @ map (OpGet (\<not> case_sensitive (options m))) left\<rparr>) \<and>
           tags m' = filter (\<lambda>t. cmp_name H (options m) (name t) \<in> cmp_name H (options m) ` set names) (tags m)
                      @ map (resolve H (options m) w) left \<and>
           changed m' = (changed m \<or>
                  (\<exists>t \<in> set (tags m). cmp_name H (options m) (name t) \<notin> cmp_name H (options m) ` set names) \<or>
                  left \<noteq> []) \<and>
           options m' = options m \<and> has_instance m' = has_instance m \<and>
           distinct (map (cmp_name H (options m)) left) \<and> set left \<subseteq> set names \<and>
           cmp_name H (options m) ` set left =
             cmp_name H (options m) ` set names - (\<lambda>t. cmp_name H (options m) (name t)) ` set (tags m) \<and>
           (\<forall>n \<in> set left.
              resolve H (options m) w n \<in> tag_of_row ` set (table w) \<or>
              (resolve H (options m) w n = unsaved n \<and>
               (\<forall>r \<in> set (table w).
                  db_key H (options m) (row_name r) \<noteq> db_key H (options m) n)))"
proof -
  let ?key = "cmp_name H (options m)"
  define old where "old = map (\<lambda>t. (?key (name t), t)) (tags m)"
  define new where "new = dict_of (map (\<lambda>n. (?key n, n)) names)"
  define rest where "rest = filter (\<lambda>e. fst e \<notin> fst ` set old) new"
  define left where "left = map snd rest"
  define kept where "kept = filter (\<lambda>t. ?key (name t) \<in> ?key ` set names) (tags m)"
  define drop where "drop = (\<exists>t \<in> set (tags m). ?key (name t) \<notin> ?key ` set names)"
  define m1 where "m1 = (if drop then m\<lparr>changed := True\<rparr> else m)"
  define m2 where "m2 = (if left = [] then m1 else m1\<lparr>changed := True\<rparr>)"
  have dold: "distinct (map fst old)"
    using dist by (simp add: old_def comp_def)
  have old: "dict_of (map (\<lambda>t. (?key (name t), t)) (tags m)) = old"
    using dold dict_of_distinct_keys[of old] by (simp add: old_def)
  have keys: "dict_keys new = ?key ` set names"
    by (simp add: new_def image_image)
  have ent: "fst e = ?key (snd e) \<and> snd e \<in> set names" if "e \<in> set new" for e
    using dict_of_entries[of e "map (\<lambda>n. (?key n, n)) names"] that by (auto simp: new_def)
  have kept: "map snd (filter (\<lambda>i. fst i \<in> dict_keys new) old) = kept"
    unfolding keys by (simp add: old_def kept_def filter_map comp_def)
  have drop: "(\<exists>i \<in> set old. fst i \<notin> dict_keys new) \<longleftrightarrow> drop"
    unfolding keys by (auto simp: old_def drop_def)
  have st: "staying_loop old new [] m = (kept, rest, m1)"
    using staying_loop_spec[OF dold, of new "[]" m] unfolding kept drop
    by (simp add: rest_def m1_def)
  have m1: "options m1 = options m" "has_instance m1 = has_instance m" "tags m1 = tags m"
    "changed m1 = (changed m \<or> drop)"
    by (simp_all add: m1_def)
  have un1: "unique_names H (options m1) w"
    using un m1(1) by simp
  have fl: "finding_loop H left kept m1 w =
      (Inr (kept @ map (resolve H (options m) w) left), m2,
       w\<lparr>log := log w @ map (OpGet (\<not> case_sensitive (options m))) left\<rparr>)"
    using finding_loop_spec[OF un1, of left kept] unfolding m1(1) by (simp add: m2_def)
  have m2: "options m2 = options m" "has_instance m2 = has_instance m"
    "changed m2 = (changed m \<or> drop \<or> left \<noteq> [])"
    using m1 by (auto simp: m2_def)
  have chk: "\<not> (max_count (options m) \<noteq> 0 \<and> int (length tag_names) > max_count (options m))"
    using mx by auto
  have "set_tag_list H m tag_names w =
      (case staying_loop old new [] m of
         (kept, left, m1) \<Rightarrow>
           (case finding_loop H (map snd left) kept m1 w of
              (Inl e, m2, w') \<Rightarrow> (Inl e, m2, w')
            | (Inr new_tags, m2, w') \<Rightarrow> (Inr (), m2\<lparr>tags := new_tags\<rparr>, w')))"
    unfolding set_tag_list_def Let_def names[symmetric] old new_def[symmetric]
    using inst chk by (simp only: simp_thms if_True if_False)
  then have res: "set_tag_list H m tag_names w =
      (Inr (), m2\<lparr>tags := kept @ map (resolve H (options m) w) left\<rparr>,
       w\<lparr>log := log w @ map (OpGet (\<not> case_sensitive (options m))) left\<rparr>)"
    unfolding st by (simp add: left_def[symmetric] fl)
  have mk: "map ?key left = map fst rest"
    using ent by (auto simp: left_def rest_def comp_def)
  have "distinct (map fst new)"
    unfolding new_def by (rule dict_of_distinct)
  then have "distinct (map fst rest)"
    unfolding rest_def by (rule distinct_map_filter)
  then have d: "distinct (map ?key left)"
    using mk by simp
  have sub: "set left \<subseteq> set names"
    using ent by (auto simp: left_def rest_def)
  have "?key ` set left = fst ` set rest"
    using mk by (metis set_map)
  also have "\<dots> = dict_keys new - fst ` set old"
    by (auto simp: dict_keys_def rest_def)
  also have "\<dots> = ?key ` set names - (\<lambda>t. ?key (name t)) ` set (tags m)"
    unfolding keys by (auto simp: old_def image_image)
  finally have k: "?key ` set left = ?key ` set names - (\<lambda>t. ?key (name t)) ` set (tags m)" .
  have c: "\<forall>n \<in> set left.
      resolve H (options m) w n \<in> tag_of_row ` set (table w) \<or>
      (resolve H (options m) w n = unsaved n \<and>
       (\<forall>r \<in> set (table w). db_key H (options m) (row_name r) \<noteq> db_key H (options m) n))"
    using resolve_cases[where H = H and opts = "options m" and w = w] by blast
  have t: "tags (m2\<lparr>tags := kept @ map (resolve H (options m) w) left\<rparr>) =
      filter (\<lambda>t. ?key (name t) \<in> ?key ` set names) (tags m) @ map (resolve H (options m) w) left"
    by (simp add: kept_def)
  have ch: "changed (m2\<lparr>tags := kept @ map (resolve H (options m) w) left\<rparr>) =
      (changed m \<or> (\<exists>t \<in> set (tags m). ?key (name t) \<notin> ?key ` set names) \<or> left \<noteq> [])"
    using m2(3) by (simp add: drop_def)
  have oi: "options (m2\<lparr>tags := kept @ map (resolve H (options m) w) left\<rparr>) = options m"
    "has_instance (m2\<lparr>tags := kept @ map (resolve H (options m) w) left\<rparr>) = has_instance m"
    using m2(1,2) by simp_all
  show ?thesis
    apply (rule exI[of _ "m2\<lparr>tags := kept @ map (resolve H (options m) w) left\<rparr>"])
    apply (rule exI[of _ left])
    apply (intro conjI)
            apply (rule res)
           apply (rule t)
          apply (rule ch)
         apply (rule oi(1))
        apply (rule oi(2))
       apply (rule d)
      apply (rule sub)
     apply (rule k)
    apply (rule c)
    done
qed

text \<open>
  C4 (as amended). On a manager of an instance, with at most \<open>max_count\<close> names, when
  the current tags have pairwise different comparison names and the names in the table
  are unique, \<open>set_tag_list\<close> returns normally. The new tag list is the current tags
  whose comparison name (lowercased unless the field is case sensitive) occurs among
  the new names, as they were and in their order, followed by one tag for each name in
  \<open>left\<close>: these are new names, one for each comparison name that no current tag has.
  Each is the tag of a row of the table or, when the field's look-up matches no row
  with it, an unsaved tag of that name. The database was asked for the names in \<open>left\<close> and for
  nothing else. \<open>changed\<close> becomes true if a current tag is dropped or \<open>left\<close> is not
  empty, and is as it was otherwise.
\<close>

theorem set_tag_list_reconciles:
  assumes "has_instance m"
    and "max_count (options m) = 0 \<or> int (length tag_names) \<le> max_count (options m)"
    and "distinct (map (\<lambda>t. cmp_name H (options m) (name t)) (tags m))"
    and "unique_names H (options m) w"
    and "names = (if force_lowercase (options m) then map (py_lower H) tag_names else tag_names)"
  shows "\<exists>m' left. set_tag_list H m tag_names w =
           (Inr (), m', w\<lparr>log := log w @ map (OpGet (\<not> case_sensitive (options m))) left\<rparr>) \<and>
           tags m' = filter (\<lambda>t. cmp_name H (options m) (name t) \<in> cmp_name H (options m) ` set names) (tags m)
                      @ map (resolve H (options m) w) left \<and>
           changed m' = (changed m \<or>
                  (\<exists>t \<in> set (tags m). cmp_name H (options m) (name t) \<notin> cmp_name H (options m) ` set names) \<or>
                  left \<noteq> []) \<and>
           options m' = options m \<and> has_instance m' = has_instance m \<and>
           distinct (map (cmp_name H (options m)) left) \<and> set left \<subseteq> set names \<and>
           cmp_name H (options m) ` set left =
             cmp_name H (options m) ` set names - (\<lambda>t. cmp_name H (options m) (name t)) ` set (tags m) \<and>
           (\<forall>n \<in> set left.
              resolve H (options m) w n \<in> tag_of_row ` set (table w) \<or>
              (resolve H (options m) w n = unsaved n \<and>
               (\<forall>r \<in> set (table w).
                  db_key H (options m) (row_name r) \<noteq> db_key H (options m) n)))"
  using assms by (rule set_tag_list_spec)

theorem set_tag_list_reconciles_witness:
  "has_instance example_loaded \<and> max_count (options example_loaded) = 0 \<and>
   distinct (map (\<lambda>t. cmp_name example_host (options example_loaded) (name t)) (tags example_loaded)) \<and>
   unique_names example_host (options example_loaded) example_world \<and>
   [''apple'', ''Cherry'', ''cherry'', ''berry''] =
     (if force_lowercase (options example_loaded)
      then map (py_lower example_host) [''apple'', ''Cherry'', ''cherry'', ''berry'']
      else [''apple'', ''Cherry'', ''cherry'', ''berry'']) \<and>
   (\<exists>m' left. set_tag_list example_host example_loaded [''apple'', ''Cherry'', ''cherry'', ''berry''] example_world =
           (Inr (), m', example_world\<lparr>log := log example_world @
               map (OpGet (\<not> case_sensitive (options example_loaded))) left\<rparr>) \<and>
           tags m' = filter (\<lambda>t. cmp_name example_host (options example_loaded) (name t) \<in>
                        cmp_name example_host (options example_loaded) ` set [''apple'', ''Cherry'', ''cherry'', ''berry''])
                      (tags example_loaded)
                      @ map (resolve example_host (options example_loaded) example_world) left \<and>
           changed m' = (changed example_loaded \<or>
                  (\<exists>t \<in> set (tags example_loaded). cmp_name example_host (options example_loaded) (name t) \<notin>
                      cmp_name example_host (options example_loaded) ` set [''apple'', ''Cherry'', ''cherry'', ''berry'']) \<or>
                  left \<noteq> []) \<and>
           options m' = options example_loaded \<and> has_instance m' = has_instance example_loaded \<and>
           distinct (map (cmp_name example_host (options example_loaded)) left) \<and>
           set left \<subseteq> set [''apple'', ''Cherry'', ''cherry'', ''berry''] \<and>
           cmp_name example_host (options example_loaded) ` set left =
             cmp_name example_host (options example_loaded) ` set [''apple'', ''Cherry'', ''cherry'', ''berry''] -
             (\<lambda>t. cmp_name example_host (options example_loaded) (name t)) ` set (tags example_loaded) \<and>
           (\<forall>n \<in> set left.
              resolve example_host (options example_loaded) example_world n \<in> tag_of_row ` set (table example_world) \<or>
              (resolve example_host (options example_loaded) example_world n = unsaved n \<and>
               (\<forall>r \<in> set (table example_world).
                  db_key example_host (options example_loaded) (row_name r) \<noteq> db_key example_host (options example_loaded) n))))"
proof -
  have h1: "has_instance example_loaded"
    by (simp add: example_loaded_def)
  have h2: "max_count (options example_loaded) = 0"
    by (simp add: example_loaded_def example_options_def)
  have h3: "distinct (map (\<lambda>t. cmp_name example_host (options example_loaded) (name t)) (tags example_loaded))"
    by (simp add: example_loaded_def)
  have h4: "unique_names example_host (options example_loaded) example_world"
    by (simp add: example_loaded_def example_defs unique_names_def cmp_name_def db_key_def example_host_def ascii_lower_def
        ascii_lower_char_def)
  have h5: "[''apple'', ''Cherry'', ''cherry'', ''berry''] =
     (if force_lowercase (options example_loaded)
      then map (py_lower example_host) [''apple'', ''Cherry'', ''cherry'', ''berry'']
      else [''apple'', ''Cherry'', ''cherry'', ''berry''])"
    by (simp add: example_loaded_def example_options_def)
  note T = set_tag_list_reconciles[OF h1 disjI1[OF h2] h3 h4 h5]
  show ?thesis
    apply (intro conjI)
         apply (rule h1)
        apply (rule h2)
       apply (rule h3)
      apply (rule h4)
     apply (rule h5)
    apply (rule T)
    done
qed

text \<open>
  C4 as stated fails when two current tags have the same comparison name. After
  \<open>_add\<close> was given the string \<open>apple\<close>, the instance of a field that is not case
  sensitive has the tags \<open>Apple\<close> and \<open>apple\<close>. \<open>set_tag_list\<close> with the one name
  \<open>apple\<close> keeps only the second: \<open>Apple\<close>, whose comparison name occurs among the new
  names, is dropped, and \<open>changed\<close> stays false.
\<close>

theorem set_tag_list_counterexample:
  "RelatedManager_add example_host example_loaded [Str ''apple''] example_world
     = (Inr (), example_two_apples, example_world_two_apples) \<and>
   cmp_name example_host (options example_two_apples) (name (tag_of_row example_apple))
     = cmp_name example_host (options example_two_apples) ''apple'' \<and>
   set_tag_list example_host example_two_apples [''apple''] example_world_two_apples
     = (Inr (),
        example_two_apples\<lparr>tags := [\<lparr>pk = Some 3, name = ''apple'', protected = False\<rparr>]\<rparr>,
        example_world_two_apples) \<and>
   \<not> changed (example_two_apples\<lparr>tags := [\<lparr>pk = Some 3, name = ''apple'', protected = False\<rparr>]\<rparr>)"
  by (simp add: example_loaded_def example_two_apples_def example_world_two_apples_def
      example_defs related_defs single_defs)

lemma matches_db_key:
  "matches H (\<not> case_sensitive opts) nm = (\<lambda>r. db_key H opts (row_name r) = db_key H opts nm)"
  by (rule ext) (simp add: matches_def db_key_def)

lemma lookup_objects_get: "lookup H opts nm w = objects_get H (\<not> case_sensitive opts) nm w"
  by (simp add: lookup_def)

lemma lookup_found:
  "filter (matches H (\<not> case_sensitive opts) nm) (table w) = [r] \<Longrightarrow>
   lookup H opts nm w = (Inr (tag_of_row r), logged (OpGet (\<not> case_sensitive opts) nm) w)"
  unfolding lookup_objects_get objects_get_def by simp


lemma lookup_Inr_row:
  assumes "lookup H opts n w = (Inr t, w')"
  shows "\<exists>r. filter (matches H (\<not> case_sensitive opts) n) (table w) = [r] \<and> t = tag_of_row r"
  using assms unfolding lookup_objects_get objects_get_def by (auto split: list.splits)

lemma lookup_DoesNotExist:
  "lookup H opts n w = (Inl DoesNotExist, w') \<Longrightarrow>
   filter (matches H (\<not> case_sensitive opts) n) (table w) = []"
  unfolding lookup_objects_get objects_get_def
  by (auto split: list.splits)

lemma filter_single_mem:
  assumes "filter P xs = [r]"
  shows "r \<in> set xs \<and> P r"
proof -
  have "r \<in> set [r]" by simp
  then have "r \<in> set (filter P xs)"
    by (simp only: assms)
  then show ?thesis by simp
qed

lemma filter_single_find: "filter P xs = [r] \<Longrightarrow> find P xs = Some r"
  by (induction xs) (auto split: if_splits simp: filter_empty_conv)

lemma filter_empty_find: "filter P xs = [] \<Longrightarrow> find P xs = None"
  by (simp add: find_None_iff filter_empty_conv)

lemma found_for_resolve:
  assumes "unique_names H opts w"
  shows "found_for H opts w n (resolve H opts w n)"
proof -
  have f: "filter (matches H (\<not> case_sensitive opts) n) (table w) =
      (case find (\<lambda>r. db_key H opts (row_name r) = db_key H opts n) (table w) of
         None \<Rightarrow> [] | Some r \<Rightarrow> [r])"
    unfolding matches_db_key
    using filter_key_distinct[of "\<lambda>r. db_key H opts (row_name r)" "table w" "db_key H opts n"] assms
    by (simp add: unique_names_def)
  show ?thesis
    unfolding found_for_def f
    by (simp add: resolve_def unsaved_def split: option.splits)
qed

lemma get_found:
  "changed m \<Longrightarrow> tag_name m = Some nm \<Longrightarrow> nm \<noteq> [] \<Longrightarrow>
   filter (matches H (\<not> case_sensitive (options m)) nm) (table w) = [r] \<Longrightarrow>
   SingleTagManager_get H m w =
     (Inr (Some (tag_of_row r)), m, logged (OpGet (\<not> case_sensitive (options m)) nm) w)"
  by (simp add: SingleTagManager_get_def lookup_found)

lemma set_string_name:
  "s \<noteq> [] \<Longrightarrow>
   tag_name (SingleTagManager_set H m (VStr s)) =
     (if filter (\<lambda>c. c \<noteq> CHR 0x22) (if force_lowercase (options m) then py_lower H s else s) = []
      then None
      else Some (filter (\<lambda>c. c \<noteq> CHR 0x22) (if force_lowercase (options m) then py_lower H s else s)))"
  by (simp add: SingleTagManager_set_def set_tag_name_def Let_def)

lemma set_tag_name_tag: "set_tag_name H opts (VTag t) = Some (name t)"
  by (simp add: set_tag_name_def)




lemma finding_loop_sound:
  "finding_loop H ns acc m w = (Inr ts, m', w') \<Longrightarrow>
   \<forall>t \<in> set ts. t \<in> set acc \<or> (\<exists>n \<in> set ns. found_for H (options m) w n t)"
proof (induction ns arbitrary: acc m w)
  case Nil
  then show ?case by simp
next
  case (Cons n ns)
  obtain r w1 where l: "lookup H (options m) n w = (r, w1)"
    by (cases "lookup H (options m) n w")
  then have w1: "w1 = logged (OpGet (\<not> case_sensitive (options m)) n) w"
    by (rule lookup_frame)
  have ff: "found_for H (options (m\<lparr>changed := True\<rparr>)) w1 = found_for H (options m) w"
    by (intro ext) (simp add: found_for_def w1 logged_def)
  show ?case
  proof (cases r)
    case (Inr t0)
    then have fl: "finding_loop H ns (acc @ [t0]) (m\<lparr>changed := True\<rparr>) w1 = (Inr ts, m', w')"
      using Cons.prems l by simp
    have "found_for H (options m) w n t0"
      using lookup_Inr_row[OF l[unfolded Inr]] by (auto simp: found_for_def)
    with Cons.IH[OF fl] show ?thesis
      unfolding ff by auto
  next
    case (Inl e)
    show ?thesis
    proof (cases "e = DoesNotExist")
      case True
      then have fl: "finding_loop H ns (acc @ [unsaved n]) (m\<lparr>changed := True\<rparr>) w1 = (Inr ts, m', w')"
        using Cons.prems l Inl by (simp add: unsaved_def)
      have "found_for H (options m) w n (unsaved n)"
        using lookup_DoesNotExist[OF l[unfolded Inl True]] by (simp add: found_for_def)
      with Cons.IH[OF fl] show ?thesis
        unfolding ff by auto
    next
      case False
      then have False
        using Cons.prems l Inl by (cases e) auto
      then show ?thesis ..
    qed
  qed
qed

lemma staying_loop_kept:
  "staying_loop old d acc m = (k, l, m') \<Longrightarrow>
   set k \<subseteq> set acc \<union> snd ` {i \<in> set old. fst i \<in> dict_keys d} \<and> set l \<subseteq> set d"
proof (induction old arbitrary: d acc m)
  case Nil
  then show ?case by simp
next
  case (Cons i old)
  show ?case
  proof (cases "fst i \<in> dict_keys d")
    case True
    then have "staying_loop old (dict_del (fst i) d) (acc @ [snd i]) m = (k, l, m')"
      using Cons.prems by simp
    note ih = Cons.IH[OF this]
    have a: "set l \<subseteq> set d"
      using ih by (auto simp: dict_del_def)
    have b: "set k \<subseteq> set acc \<union> snd ` {i' \<in> set (i # old). fst i' \<in> dict_keys d}"
      using ih True by fastforce
    show ?thesis
      using a b by simp
  next
    case False
    then have "staying_loop old d acc (m\<lparr>changed := True\<rparr>) = (k, l, m')"
      using Cons.prems by simp
    from Cons.IH[OF this] show ?thesis by auto
  qed
qed

lemma staying_loop_options:
  "staying_loop old d acc m = (k, l, m') \<Longrightarrow> options m' = options m"
proof (induction old arbitrary: d acc m)
  case Nil
  then show ?case by simp
next
  case (Cons i old)
  show ?case
  proof (cases "fst i \<in> dict_keys d")
    case True
    then have "staying_loop old (dict_del (fst i) d) (acc @ [snd i]) m = (k, l, m')"
      using Cons.prems by simp
    from Cons.IH[OF this] show ?thesis by auto
  next
    case False
    then have "staying_loop old d acc (m\<lparr>changed := True\<rparr>) = (k, l, m')"
      using Cons.prems by simp
    from Cons.IH[OF this] show ?thesis by auto
  qed
qed

lemma set_tag_list_sound:
  assumes "set_tag_list H m tag_names w = (Inr u, m', w')"
    and names: "names = (if force_lowercase (options m) then map (py_lower H) tag_names else tag_names)"
  shows "\<forall>t \<in> set (tags m').
           (t \<in> set (tags m) \<and>
            cmp_name H (options m) (name t) \<in> cmp_name H (options m) ` set names) \<or>
           (\<exists>n \<in> set names. found_for H (options m) w n t)"
proof -
  let ?old = "dict_of (map (\<lambda>t. (cmp_name H (options m) (name t), t)) (tags m))"
  let ?new = "dict_of (map (\<lambda>n. (cmp_name H (options m) n, n)) names)"
  obtain k l m1 where st: "staying_loop ?old ?new [] m = (k, l, m1)"
    by (cases "staying_loop ?old ?new [] m") auto
  obtain r m2 w2 where fl: "finding_loop H (map snd l) k m1 w = (r, m2, w2)"
    by (cases "finding_loop H (map snd l) k m1 w") auto
  from assms(1) st fl obtain ts where r: "r = Inr ts" and m': "m' = m2\<lparr>tags := ts\<rparr>"
    unfolding set_tag_list_def Let_def names[symmetric]
    by (cases r) (auto split: if_splits)
  have old: "i \<in> set ?old \<Longrightarrow> snd i \<in> set (tags m) \<and> fst i = cmp_name H (options m) (name (snd i))" for i
    using dict_of_entries[of i "map (\<lambda>t. (cmp_name H (options m) (name t), t)) (tags m)"] by auto
  have new: "e \<in> set ?new \<Longrightarrow> snd e \<in> set names" for e
    using dict_of_entries[of e "map (\<lambda>n. (cmp_name H (options m) n, n)) names"] by auto
  have keys: "dict_keys ?new = cmp_name H (options m) ` set names"
    by (simp add: image_image)
  have k: "\<forall>t \<in> set k. t \<in> set (tags m) \<and>
      cmp_name H (options m) (name t) \<in> cmp_name H (options m) ` set names"
    using staying_loop_kept[OF st] old unfolding keys by fastforce
  have l: "set (map snd l) \<subseteq> set names"
    using staying_loop_kept[OF st] new by auto
  have o: "options m1 = options m"
    using staying_loop_options[OF st] .
  from finding_loop_sound[OF fl[unfolded r]]
  have "\<forall>t \<in> set ts. t \<in> set k \<or> (\<exists>n \<in> set (map snd l). found_for H (options m) w n t)"
    unfolding o .
  then show ?thesis
    unfolding m' using k l by (simp add: subset_iff) blast
qed

lemma set_tag_list_complete:
  assumes inst: "has_instance m"
    and mx: "max_count (options m) = 0 \<or> int (length tag_names) \<le> max_count (options m)"
    and dist: "distinct (map (\<lambda>t. cmp_name H (options m) (name t)) (tags m))"
    and un: "unique_names H (options m) w"
    and names: "names = (if force_lowercase (options m) then map (py_lower H) tag_names else tag_names)"
  shows "\<exists>m' w'. set_tag_list H m tag_names w = (Inr (), m', w') \<and>
           (\<forall>t \<in> set (tags m).
              cmp_name H (options m) (name t) \<in> cmp_name H (options m) ` set names \<longrightarrow>
              t \<in> set (tags m')) \<and>
           (\<forall>n \<in> set names.
              cmp_name H (options m) n \<notin> (\<lambda>t. cmp_name H (options m) (name t)) ` set (tags m) \<longrightarrow>
              (\<exists>n' \<in> set names. cmp_name H (options m) n' = cmp_name H (options m) n \<and>
                 (\<exists>t \<in> set (tags m'). found_for H (options m) w n' t)))"
proof -
  let ?key = "cmp_name H (options m)"
  from set_tag_list_spec[OF inst mx dist un names]
  obtain m' left where s:
    "set_tag_list H m tag_names w =
           (Inr (), m', w\<lparr>log := log w @ map (OpGet (\<not> case_sensitive (options m))) left\<rparr>) \<and>
           tags m' = filter (\<lambda>t. cmp_name H (options m) (name t) \<in> cmp_name H (options m) ` set names) (tags m)
                      @ map (resolve H (options m) w) left \<and>
           changed m' = (changed m \<or>
                  (\<exists>t \<in> set (tags m). cmp_name H (options m) (name t) \<notin> cmp_name H (options m) ` set names) \<or>
                  left \<noteq> []) \<and>
           options m' = options m \<and> has_instance m' = has_instance m \<and>
           distinct (map (cmp_name H (options m)) left) \<and> set left \<subseteq> set names \<and>
           cmp_name H (options m) ` set left =
             cmp_name H (options m) ` set names - (\<lambda>t. cmp_name H (options m) (name t)) ` set (tags m) \<and>
           (\<forall>n \<in> set left.
              resolve H (options m) w n \<in> tag_of_row ` set (table w) \<or>
              (resolve H (options m) w n = unsaved n \<and>
               (\<forall>r \<in> set (table w).
                  db_key H (options m) (row_name r) \<noteq> db_key H (options m) n)))"
    by (elim exE) (rule that)
  note res = s[THEN conjunct1]
  note tg = s[THEN conjunct2, THEN conjunct1]
  note sub = s[THEN conjunct2, THEN conjunct2, THEN conjunct2, THEN conjunct2, THEN conjunct2,
      THEN conjunct2, THEN conjunct1]
  note ky = s[THEN conjunct2, THEN conjunct2, THEN conjunct2, THEN conjunct2, THEN conjunct2,
      THEN conjunct2, THEN conjunct2, THEN conjunct1]
  have a: "\<forall>t \<in> set (tags m). ?key (name t) \<in> ?key ` set names \<longrightarrow> t \<in> set (tags m')"
    unfolding tg by simp
  have b: "\<exists>n' \<in> set names. ?key n' = ?key n \<and> (\<exists>t \<in> set (tags m'). found_for H (options m) w n' t)"
    if n: "n \<in> set names" "?key n \<notin> (\<lambda>t. ?key (name t)) ` set (tags m)" for n
  proof -
    have "?key n \<in> ?key ` set left"
      unfolding ky using n by simp
    then obtain n' where n': "n' \<in> set left" "?key n' = ?key n"
      by auto
    have "resolve H (options m) w n' \<in> set (tags m')"
      unfolding tg using n'(1) by simp
    moreover have "found_for H (options m) w n' (resolve H (options m) w n')"
      using un by (rule found_for_resolve)
    ultimately show ?thesis
      using n' sub by blast
  qed
  show ?thesis
    using res a b by blast
qed

lemma ensure_tag_db_step:
  assumes e: "ensure_tag_db H opts t w = (Inr t', w')"
  shows "(truthy_pk t \<longrightarrow> t' = t) \<and>
         (\<not> truthy_pk t \<longrightarrow>
            (\<exists>r \<in> set (table w'). t' = tag_of_row r \<and>
               matches H (\<not> case_sensitive opts) (name t) r)) \<and>
         (\<exists>created. table w' = table w @ created \<and>
            (\<forall>c \<in> set created.
               filter (matches H (\<not> case_sensitive opts) (row_name c)) (table w) = []))"
proof (cases "truthy_pk t")
  case True
  then have "t' = t" "w' = w"
    using e by (simp_all add: ensure_tag_db_def)
  then show ?thesis
    using True by simp
next
  case nt: False
  obtain res w1 where l: "lookup H opts (name t) w = (res, w1)"
    by (cases "lookup H opts (name t) w")
  then have w1: "w1 = logged (OpGet (\<not> case_sensitive opts) (name t)) w"
    by (rule lookup_frame)
  show ?thesis
  proof (cases res)
    case (Inr t0)
    then have eq: "t' = t0" "w' = w1"
      using e nt l by (simp_all add: ensure_tag_db_def)
    obtain r where r: "filter (matches H (\<not> case_sensitive opts) (name t)) (table w) = [r]"
      "t0 = tag_of_row r"
      using lookup_Inr_row[OF l[unfolded Inr]] by blast
    have "r \<in> set (table w) \<and> matches H (\<not> case_sensitive opts) (name t) r"
      using filter_single_mem[OF r(1)] .
    then show ?thesis
      using nt eq r(2) by (auto simp: w1 logged_def)
  next
    case (Inl er)
    show ?thesis
    proof (cases "er = DoesNotExist")
      case True
      let ?row = "\<lparr>row_pk = next_pk w, row_name = name t, row_count = 0, row_protected = False\<rparr>"
      have miss: "filter (matches H (\<not> case_sensitive opts) (name t)) (table w) = []"
        using lookup_DoesNotExist[OF l[unfolded Inl True]] .
      have "t' = tag_of_row ?row \<and> table w' = table w @ [?row]"
        using e nt l Inl True
        by (auto simp: ensure_tag_db_def objects_create_eq w1 logged_def tag_of_row_def)
      moreover have "matches H (\<not> case_sensitive opts) (name t) ?row"
        by (simp add: matches_def)
      ultimately show ?thesis
        using nt miss by auto
    next
      case False
      then have False
        using e nt l Inl by (cases er) (simp_all add: ensure_tag_db_def)
      then show ?thesis ..
    qed
  qed
qed

lemma ensure_tags_db_rows:
  "ensure_tags_db H opts ts w = (Inr ts', w') \<Longrightarrow>
   length ts' = length ts \<and>
   (\<forall>i < length ts.
      (truthy_pk (ts ! i) \<longrightarrow> ts' ! i = ts ! i) \<and>
      (\<not> truthy_pk (ts ! i) \<longrightarrow>
         (\<exists>r \<in> set (table w'). ts' ! i = tag_of_row r \<and>
            matches H (\<not> case_sensitive opts) (name (ts ! i)) r))) \<and>
   (\<exists>created. table w' = table w @ created \<and>
      (\<forall>c \<in> set created.
         filter (matches H (\<not> case_sensitive opts) (row_name c)) (table w) = []))"
proof (induction ts arbitrary: w ts')
  case Nil
  then show ?case by simp
next
  case (Cons t ts)
  from Cons.prems obtain t1 w1 ts1 where
    1: "ensure_tag_db H opts t w = (Inr t1, w1)" and
    2: "ensure_tags_db H opts ts w1 = (Inr ts1, w')" and ts': "ts' = t1 # ts1"
    by (auto split: prod.splits sum.splits)
  note s = ensure_tag_db_step[OF 1]
  note ih = Cons.IH[OF 2]
  obtain c0 where c0: "table w1 = table w @ c0"
    "\<forall>c \<in> set c0. filter (matches H (\<not> case_sensitive opts) (row_name c)) (table w) = []"
    using s by blast
  obtain c1 where c1: "table w' = table w1 @ c1"
    "\<forall>c \<in> set c1. filter (matches H (\<not> case_sensitive opts) (row_name c)) (table w1) = []"
    using ih by blast
  have cr: "table w' = table w @ (c0 @ c1)"
    using c0(1) c1(1) by simp
  have fr: "\<forall>c \<in> set (c0 @ c1). filter (matches H (\<not> case_sensitive opts) (row_name c)) (table w) = []"
    using c0(2) c1(2) unfolding c0(1) by auto
  have sub: "set (table w1) \<subseteq> set (table w')"
    using c1(1) by auto
  have idx: "(truthy_pk ((t # ts) ! i) \<longrightarrow> (t1 # ts1) ! i = (t # ts) ! i) \<and>
      (\<not> truthy_pk ((t # ts) ! i) \<longrightarrow>
         (\<exists>r \<in> set (table w'). (t1 # ts1) ! i = tag_of_row r \<and>
            matches H (\<not> case_sensitive opts) (name ((t # ts) ! i)) r))"
    if i: "i < length (t # ts)" for i
  proof (cases i)
    case 0
    then show ?thesis
      using s sub by auto
  next
    case (Suc j)
    then show ?thesis
      using ih i by simp
  qed
  have len: "length (t1 # ts1) = length (t # ts)"
    using ih by simp
  show ?case
    unfolding ts' using len idx cr fr by blast
qed

text \<open>
  C5 (as amended). The look-up of a field that is not case sensitive is
  \<open>name__iexact\<close>, which compares the names as the database folds them; that of a case
  sensitive field compares the names themselves. When one row matches the name,
  \<open>SingleTagManager.get\<close> returns the tag of that row. Whenever \<open>_ensure_tags_db\<close>
  returns, it has kept each tag that has a primary key, has replaced every other tag by
  the tag of a row that the look-up matches with its name, and has appended rows only
  for names that no row of the table matched. Whenever \<open>set_tag_list\<close> returns
  normally, each tag of the new list is a current tag whose comparison name (the name
  itself for a case sensitive field, the lowercased name otherwise) is the comparison
  name of one of the names given, or is what the look-up finds for one of the names
  given: the tag of the one row that matches, or an unsaved tag when none does. When
  the current tags have pairwise different comparison names and the table has unique
  names, \<open>set_tag_list\<close> returns normally, every current tag whose comparison name is
  that of a name given is in the new list, and every other comparison name given is
  represented by what the look-up finds for a name given. With \<open>force_lowercase\<close> the
  names given to \<open>set_tag_list\<close> are lowercased before all this, and
  \<open>SingleTagManager.set\<close> lowercases a string value before it strips the double
  quotes and compares; the name of a tag given to \<open>set\<close> is taken as it is.
\<close>

theorem case_and_lowercase_rules:
  "matches H True nm r = (db_fold H (row_name r) = db_fold H nm) \<and>
   matches H False nm r = (row_name r = nm) \<and>
   cmp_name H opts a = (if case_sensitive opts then a else py_lower H a) \<and>
   (changed sm \<and> tag_name sm = Some nm \<and> nm \<noteq> [] \<and>
    filter (matches H (\<not> case_sensitive (options sm)) nm) (table w) = [r0] \<longrightarrow>
      SingleTagManager_get H sm w =
        (Inr (Some (tag_of_row r0)), sm, logged (OpGet (\<not> case_sensitive (options sm)) nm) w)) \<and>
   (ensure_tags_db H opts ts w = (Inr ts', w') \<longrightarrow>
      length ts' = length ts \<and>
      (\<forall>i < length ts.
         (truthy_pk (ts ! i) \<longrightarrow> ts' ! i = ts ! i) \<and>
         (\<not> truthy_pk (ts ! i) \<longrightarrow>
            (\<exists>r \<in> set (table w'). ts' ! i = tag_of_row r \<and>
               matches H (\<not> case_sensitive opts) (name (ts ! i)) r))) \<and>
      (\<exists>created. table w' = table w @ created \<and>
         (\<forall>c \<in> set created.
            filter (matches H (\<not> case_sensitive opts) (row_name c)) (table w) = []))) \<and>
   (set_tag_list H m tag_names w = (Inr (), m', w2) \<longrightarrow>
      (\<forall>t \<in> set (tags m').
         (t \<in> set (tags m) \<and>
          cmp_name H (options m) (name t) \<in> cmp_name H (options m) `
            set (if force_lowercase (options m) then map (py_lower H) tag_names else tag_names)) \<or>
         (\<exists>n \<in> set (if force_lowercase (options m) then map (py_lower H) tag_names else tag_names).
            found_for H (options m) w n t))) \<and>
   (has_instance m \<and>
    (max_count (options m) = 0 \<or> int (length tag_names) \<le> max_count (options m)) \<and>
    distinct (map (\<lambda>t. cmp_name H (options m) (name t)) (tags m)) \<and>
    unique_names H (options m) w \<longrightarrow>
      (\<exists>m3 w3. set_tag_list H m tag_names w = (Inr (), m3, w3) \<and>
         (\<forall>t \<in> set (tags m).
            cmp_name H (options m) (name t) \<in> cmp_name H (options m) `
              set (if force_lowercase (options m) then map (py_lower H) tag_names else tag_names) \<longrightarrow>
            t \<in> set (tags m3)) \<and>
         (\<forall>n \<in> set (if force_lowercase (options m) then map (py_lower H) tag_names else tag_names).
            cmp_name H (options m) n \<notin> (\<lambda>t. cmp_name H (options m) (name t)) ` set (tags m) \<longrightarrow>
            (\<exists>n' \<in> set (if force_lowercase (options m) then map (py_lower H) tag_names
                           else tag_names).
               cmp_name H (options m) n' = cmp_name H (options m) n \<and>
               (\<exists>t \<in> set (tags m3). found_for H (options m) w n' t))))) \<and>
   (s \<noteq> [] \<longrightarrow>
      tag_name (SingleTagManager_set H sl (VStr s)) =
        (if filter (\<lambda>c. c \<noteq> CHR 0x22) (if force_lowercase (options sl) then py_lower H s else s) = []
         then None
         else Some (filter (\<lambda>c. c \<noteq> CHR 0x22)
                      (if force_lowercase (options sl) then py_lower H s else s)))) \<and>
   set_tag_name H opts (VTag t0) = Some (name t0)"
proof -
  have 1: "matches H True nm r = (db_fold H (row_name r) = db_fold H nm)"
    by (simp add: matches_def)
  have 2: "matches H False nm r = (row_name r = nm)"
    by (simp add: matches_def)
  have 3: "cmp_name H opts a = (if case_sensitive opts then a else py_lower H a)"
    by (simp add: cmp_name_def)
  have 4: "changed sm \<and> tag_name sm = Some nm \<and> nm \<noteq> [] \<and>
    filter (matches H (\<not> case_sensitive (options sm)) nm) (table w) = [r0] \<longrightarrow>
      SingleTagManager_get H sm w =
        (Inr (Some (tag_of_row r0)), sm, logged (OpGet (\<not> case_sensitive (options sm)) nm) w)"
    using get_found[where H = H and m = sm and nm = nm and w = w and r = r0] by blast
  have 5: "ensure_tags_db H opts ts w = (Inr ts', w') \<longrightarrow>
      length ts' = length ts \<and>
      (\<forall>i < length ts.
         (truthy_pk (ts ! i) \<longrightarrow> ts' ! i = ts ! i) \<and>
         (\<not> truthy_pk (ts ! i) \<longrightarrow>
            (\<exists>r \<in> set (table w'). ts' ! i = tag_of_row r \<and>
               matches H (\<not> case_sensitive opts) (name (ts ! i)) r))) \<and>
      (\<exists>created. table w' = table w @ created \<and>
         (\<forall>c \<in> set created.
            filter (matches H (\<not> case_sensitive opts) (row_name c)) (table w) = []))"
    by (rule impI) (rule ensure_tags_db_rows)
  have 6: "set_tag_list H m tag_names w = (Inr (), m', w2) \<longrightarrow>
      (\<forall>t \<in> set (tags m').
         (t \<in> set (tags m) \<and>
          cmp_name H (options m) (name t) \<in> cmp_name H (options m) `
            set (if force_lowercase (options m) then map (py_lower H) tag_names else tag_names)) \<or>
         (\<exists>n \<in> set (if force_lowercase (options m) then map (py_lower H) tag_names else tag_names).
            found_for H (options m) w n t))"
    by (rule impI) (rule set_tag_list_sound[OF _ refl])
  have 7: "has_instance m \<and>
    (max_count (options m) = 0 \<or> int (length tag_names) \<le> max_count (options m)) \<and>
    distinct (map (\<lambda>t. cmp_name H (options m) (name t)) (tags m)) \<and>
    unique_names H (options m) w \<longrightarrow>
      (\<exists>m3 w3. set_tag_list H m tag_names w = (Inr (), m3, w3) \<and>
         (\<forall>t \<in> set (tags m).
            cmp_name H (options m) (name t) \<in> cmp_name H (options m) `
              set (if force_lowercase (options m) then map (py_lower H) tag_names else tag_names) \<longrightarrow>
            t \<in> set (tags m3)) \<and>
         (\<forall>n \<in> set (if force_lowercase (options m) then map (py_lower H) tag_names else tag_names).
            cmp_name H (options m) n \<notin> (\<lambda>t. cmp_name H (options m) (name t)) ` set (tags m) \<longrightarrow>
            (\<exists>n' \<in> set (if force_lowercase (options m) then map (py_lower H) tag_names
                           else tag_names).
               cmp_name H (options m) n' = cmp_name H (options m) n \<and>
               (\<exists>t \<in> set (tags m3). found_for H (options m) w n' t))))"
  proof (intro impI, elim conjE)
    assume "has_instance m"
      and "max_count (options m) = 0 \<or> int (length tag_names) \<le> max_count (options m)"
      and "distinct (map (\<lambda>t. cmp_name H (options m) (name t)) (tags m))"
      and "unique_names H (options m) w"
    then show "\<exists>m3 w3. set_tag_list H m tag_names w = (Inr (), m3, w3) \<and>
         (\<forall>t \<in> set (tags m).
            cmp_name H (options m) (name t) \<in> cmp_name H (options m) `
              set (if force_lowercase (options m) then map (py_lower H) tag_names else tag_names) \<longrightarrow>
            t \<in> set (tags m3)) \<and>
         (\<forall>n \<in> set (if force_lowercase (options m) then map (py_lower H) tag_names else tag_names).
            cmp_name H (options m) n \<notin> (\<lambda>t. cmp_name H (options m) (name t)) ` set (tags m) \<longrightarrow>
            (\<exists>n' \<in> set (if force_lowercase (options m) then map (py_lower H) tag_names
                           else tag_names).
               cmp_name H (options m) n' = cmp_name H (options m) n \<and>
               (\<exists>t \<in> set (tags m3). found_for H (options m) w n' t)))"
      by (rule set_tag_list_complete[OF _ _ _ _ refl])
  qed
  have 8: "s \<noteq> [] \<longrightarrow>
      tag_name (SingleTagManager_set H sl (VStr s)) =
        (if filter (\<lambda>c. c \<noteq> CHR 0x22) (if force_lowercase (options sl) then py_lower H s else s) = []
         then None
         else Some (filter (\<lambda>c. c \<noteq> CHR 0x22)
                      (if force_lowercase (options sl) then py_lower H s else s)))"
    by (rule impI) (rule set_string_name)
  have 9: "set_tag_name H opts (VTag t0) = Some (name t0)"
    by (rule set_tag_name_tag)
  show ?thesis
    by (intro conjI) (rule 1 2 3 4 5 6 7 8 9)+
qed

theorem case_and_lowercase_rules_witness:
  "changed (SingleTagManager_set example_host example_single (VStr ''BERRY'')) \<and>
   tag_name (SingleTagManager_set example_host example_single (VStr ''BERRY'')) = Some ''BERRY'' \<and>
   ''BERRY'' \<noteq> [] \<and>
   filter (matches example_host
       (\<not> case_sensitive (options (SingleTagManager_set example_host example_single (VStr ''BERRY''))))
       ''BERRY'') (table example_world) = [example_berry] \<and>
   SingleTagManager_get example_host (SingleTagManager_set example_host example_single (VStr ''BERRY''))
       example_world =
     (Inr (Some (tag_of_row example_berry)),
      SingleTagManager_set example_host example_single (VStr ''BERRY''),
      logged (OpGet (\<not> case_sensitive
                (options (SingleTagManager_set example_host example_single (VStr ''BERRY''))))
          ''BERRY'') example_world) \<and>
   fst (ensure_tags_db example_host example_options
          [unsaved ''berry'', unsaved ''cherry'', tag_of_row example_apple] example_world) =
     Inr [tag_of_row example_berry, \<lparr>pk = Some 3, name = ''cherry'', protected = False\<rparr>,
          tag_of_row example_apple] \<and>
   (\<exists>ts' w'. ensure_tags_db example_host example_options
          [unsaved ''berry'', unsaved ''cherry'', tag_of_row example_apple] example_world = (Inr ts', w') \<and>
      length ts' = length [unsaved ''berry'', unsaved ''cherry'', tag_of_row example_apple] \<and>
      (\<forall>i < length [unsaved ''berry'', unsaved ''cherry'', tag_of_row example_apple].
         (truthy_pk ([unsaved ''berry'', unsaved ''cherry'', tag_of_row example_apple] ! i) \<longrightarrow>
            ts' ! i = [unsaved ''berry'', unsaved ''cherry'', tag_of_row example_apple] ! i) \<and>
         (\<not> truthy_pk ([unsaved ''berry'', unsaved ''cherry'', tag_of_row example_apple] ! i) \<longrightarrow>
            (\<exists>r \<in> set (table w'). ts' ! i = tag_of_row r \<and>
               matches example_host (\<not> case_sensitive example_options)
                 (name ([unsaved ''berry'', unsaved ''cherry'', tag_of_row example_apple] ! i)) r))) \<and>
      (\<exists>created. table w' = table example_world @ created \<and>
         (\<forall>c \<in> set created.
            filter (matches example_host (\<not> case_sensitive example_options) (row_name c))
              (table example_world) = []))) \<and>
   (\<exists>m' w2. set_tag_list example_host
          (example_loaded\<lparr>options := example_options\<lparr>force_lowercase := True\<rparr>\<rparr>)
          [''APPLE'', ''BERRY'', ''Cherry''] example_world = (Inr (), m', w2) \<and>
      tags m' = [tag_of_row example_apple, tag_of_row example_berry, unsaved ''cherry''] \<and>
      (\<forall>t \<in> set (tags m').
         (t \<in> set (tags (example_loaded\<lparr>options := example_options\<lparr>force_lowercase := True\<rparr>\<rparr>)) \<and>
          cmp_name example_host
              (options (example_loaded\<lparr>options := example_options\<lparr>force_lowercase := True\<rparr>\<rparr>))
              (name t) \<in>
            cmp_name example_host
              (options (example_loaded\<lparr>options := example_options\<lparr>force_lowercase := True\<rparr>\<rparr>)) `
            set (if force_lowercase
                     (options (example_loaded\<lparr>options := example_options\<lparr>force_lowercase := True\<rparr>\<rparr>))
                 then map (py_lower example_host) [''APPLE'', ''BERRY'', ''Cherry'']
                 else [''APPLE'', ''BERRY'', ''Cherry''])) \<or>
         (\<exists>n \<in> set (if force_lowercase
                         (options (example_loaded\<lparr>options := example_options\<lparr>force_lowercase := True\<rparr>\<rparr>))
                     then map (py_lower example_host) [''APPLE'', ''BERRY'', ''Cherry'']
                     else [''APPLE'', ''BERRY'', ''Cherry'']).
            found_for example_host
              (options (example_loaded\<lparr>options := example_options\<lparr>force_lowercase := True\<rparr>\<rparr>))
              example_world n t))) \<and>
   has_instance (example_loaded\<lparr>options := example_options\<lparr>force_lowercase := True\<rparr>\<rparr>) \<and>
   max_count (options (example_loaded\<lparr>options := example_options\<lparr>force_lowercase := True\<rparr>\<rparr>)) = 0 \<and>
   distinct (map (\<lambda>t. cmp_name example_host
                    (options (example_loaded\<lparr>options := example_options\<lparr>force_lowercase := True\<rparr>\<rparr>))
                    (name t))
     (tags (example_loaded\<lparr>options := example_options\<lparr>force_lowercase := True\<rparr>\<rparr>))) \<and>
   unique_names example_host
     (options (example_loaded\<lparr>options := example_options\<lparr>force_lowercase := True\<rparr>\<rparr>)) example_world \<and>
   (\<exists>m3 w3. set_tag_list example_host
          (example_loaded\<lparr>options := example_options\<lparr>force_lowercase := True\<rparr>\<rparr>)
          [''APPLE'', ''BERRY'', ''Cherry''] example_world = (Inr (), m3, w3) \<and>
      (\<forall>t \<in> set (tags (example_loaded\<lparr>options := example_options\<lparr>force_lowercase := True\<rparr>\<rparr>)).
         cmp_name example_host
             (options (example_loaded\<lparr>options := example_options\<lparr>force_lowercase := True\<rparr>\<rparr>))
             (name t) \<in>
           cmp_name example_host
             (options (example_loaded\<lparr>options := example_options\<lparr>force_lowercase := True\<rparr>\<rparr>)) `
           set (if force_lowercase
                    (options (example_loaded\<lparr>options := example_options\<lparr>force_lowercase := True\<rparr>\<rparr>))
                then map (py_lower example_host) [''APPLE'', ''BERRY'', ''Cherry'']
                else [''APPLE'', ''BERRY'', ''Cherry'']) \<longrightarrow>
         t \<in> set (tags m3)) \<and>
      (\<forall>n \<in> set (if force_lowercase
                      (options (example_loaded\<lparr>options := example_options\<lparr>force_lowercase := True\<rparr>\<rparr>))
                  then map (py_lower example_host) [''APPLE'', ''BERRY'', ''Cherry'']
                  else [''APPLE'', ''BERRY'', ''Cherry'']).
         cmp_name example_host
             (options (example_loaded\<lparr>options := example_options\<lparr>force_lowercase := True\<rparr>\<rparr>)) n \<notin>
           (\<lambda>t. cmp_name example_host
                  (options (example_loaded\<lparr>options := example_options\<lparr>force_lowercase := True\<rparr>\<rparr>))
                  (name t)) `
           set (tags (example_loaded\<lparr>options := example_options\<lparr>force_lowercase := True\<rparr>\<rparr>)) \<longrightarrow>
         (\<exists>n' \<in> set (if force_lowercase
                          (options (example_loaded\<lparr>options := example_options\<lparr>force_lowercase := True\<rparr>\<rparr>))
                      then map (py_lower example_host) [''APPLE'', ''BERRY'', ''Cherry'']
                      else [''APPLE'', ''BERRY'', ''Cherry'']).
            cmp_name example_host
                (options (example_loaded\<lparr>options := example_options\<lparr>force_lowercase := True\<rparr>\<rparr>)) n' =
              cmp_name example_host
                (options (example_loaded\<lparr>options := example_options\<lparr>force_lowercase := True\<rparr>\<rparr>)) n \<and>
            (\<exists>t \<in> set (tags m3).
               found_for example_host
                 (options (example_loaded\<lparr>options := example_options\<lparr>force_lowercase := True\<rparr>\<rparr>))
                 example_world n' t)))) \<and>
   ''Ber'' @ [CHR 0x22] @ ''RY'' \<noteq> [] \<and>
   tag_name (SingleTagManager_set example_host
       (example_single\<lparr>options := example_options\<lparr>force_lowercase := True\<rparr>\<rparr>)
       (VStr (''Ber'' @ [CHR 0x22] @ ''RY''))) = Some ''berry''"
proof -
  let ?sm = "SingleTagManager_set example_host example_single (VStr ''BERRY'')"
  let ?ts = "[unsaved ''berry'', unsaved ''cherry'', tag_of_row example_apple]"
  let ?m = "example_loaded\<lparr>options := example_options\<lparr>force_lowercase := True\<rparr>\<rparr>"
  let ?sl = "example_single\<lparr>options := example_options\<lparr>force_lowercase := True\<rparr>\<rparr>"
  have h4: "changed ?sm" "tag_name ?sm = Some ''BERRY''" "''BERRY'' \<noteq> []"
    "filter (matches example_host (\<not> case_sensitive (options ?sm)) ''BERRY'') (table example_world)
       = [example_berry]"
    by (simp_all add: example_defs single_defs)
  have f5: "fst (ensure_tags_db example_host example_options ?ts example_world) =
     Inr [tag_of_row example_berry, \<lparr>pk = Some 3, name = ''cherry'', protected = False\<rparr>,
          tag_of_row example_apple]"
    by (simp add: example_defs related_defs single_defs unsaved_def tag_save_def)
  then obtain w' where e5: "ensure_tags_db example_host example_options ?ts example_world =
      (Inr [tag_of_row example_berry, \<lparr>pk = Some 3, name = ''cherry'', protected = False\<rparr>,
            tag_of_row example_apple], w')"
    by (cases "ensure_tags_db example_host example_options ?ts example_world") auto
  have f6: "fst (set_tag_list example_host ?m [''APPLE'', ''BERRY'', ''Cherry''] example_world) = Inr () \<and>
      tags (fst (snd (set_tag_list example_host ?m [''APPLE'', ''BERRY'', ''Cherry''] example_world))) =
        [tag_of_row example_apple, tag_of_row example_berry, unsaved ''cherry'']"
    by (simp add: example_loaded_def example_defs related_defs single_defs unsaved_def)
  then obtain m' w2 where
    e6: "set_tag_list example_host ?m [''APPLE'', ''BERRY'', ''Cherry''] example_world = (Inr (), m', w2)"
    and t6: "tags m' = [tag_of_row example_apple, tag_of_row example_berry, unsaved ''cherry'']"
    by (cases "set_tag_list example_host ?m [''APPLE'', ''BERRY'', ''Cherry''] example_world") auto
  have h7: "has_instance ?m" "max_count (options ?m) = 0"
    "distinct (map (\<lambda>t. cmp_name example_host (options ?m) (name t)) (tags ?m))"
    "unique_names example_host (options ?m) example_world"
    by (simp_all add: example_loaded_def example_defs unique_names_def db_key_def
        example_host_def ascii_lower_def ascii_lower_char_def)
  have h8: "''Ber'' @ [CHR 0x22] @ ''RY'' \<noteq> []"
    by simp
  note T = case_and_lowercase_rules[where H = example_host and sm = ?sm and nm = "''BERRY''"
      and w = example_world and ?r0.0 = example_berry and opts = example_options and ts = ?ts
      and ts' = "[tag_of_row example_berry, \<lparr>pk = Some 3, name = ''cherry'', protected = False\<rparr>,
            tag_of_row example_apple]" and w' = w'
      and m = ?m and tag_names = "[''APPLE'', ''BERRY'', ''Cherry'']" and m' = m' and ?w2.0 = w2
      and sl = ?sl and s = "''Ber'' @ [CHR 0x22] @ ''RY''"]
  note T4 = T[THEN conjunct2, THEN conjunct2, THEN conjunct2, THEN conjunct1]
  note T5 = T[THEN conjunct2, THEN conjunct2, THEN conjunct2, THEN conjunct2, THEN conjunct1]
  note T6 = T[THEN conjunct2, THEN conjunct2, THEN conjunct2, THEN conjunct2, THEN conjunct2,
      THEN conjunct1]
  note T7 = T[THEN conjunct2, THEN conjunct2, THEN conjunct2, THEN conjunct2, THEN conjunct2,
      THEN conjunct2, THEN conjunct1]
  note T8 = T[THEN conjunct2, THEN conjunct2, THEN conjunct2, THEN conjunct2, THEN conjunct2,
      THEN conjunct2, THEN conjunct2, THEN conjunct1]
  have c4: "SingleTagManager_get example_host ?sm example_world =
     (Inr (Some (tag_of_row example_berry)), ?sm,
      logged (OpGet (\<not> case_sensitive (options ?sm)) ''BERRY'') example_world)"
    by (rule T4[THEN mp]) (intro conjI h4)
  note c5 = T5[THEN mp, OF e5]
  note c6 = T6[THEN mp, OF e6]
  have c7h: "has_instance ?m \<and>
    (max_count (options ?m) = 0 \<or>
     int (length [''APPLE'', ''BERRY'', ''Cherry'']) \<le> max_count (options ?m)) \<and>
    distinct (map (\<lambda>t. cmp_name example_host (options ?m) (name t)) (tags ?m)) \<and>
    unique_names example_host (options ?m) example_world"
    by (intro conjI disjI1 h7)
  note c7 = T7[THEN mp, OF c7h]
  have c8: "tag_name (SingleTagManager_set example_host ?sl (VStr (''Ber'' @ [CHR 0x22] @ ''RY'')))
      = Some ''berry''"
    using T8[THEN mp, OF h8]
    by (simp add: example_defs example_host_def ascii_lower_def ascii_lower_char_def)
  have x5: "\<exists>ts' w'. ensure_tags_db example_host example_options ?ts example_world = (Inr ts', w') \<and>
      length ts' = length ?ts \<and>
      (\<forall>i < length ?ts.
         (truthy_pk (?ts ! i) \<longrightarrow> ts' ! i = ?ts ! i) \<and>
         (\<not> truthy_pk (?ts ! i) \<longrightarrow>
            (\<exists>r \<in> set (table w'). ts' ! i = tag_of_row r \<and>
               matches example_host (\<not> case_sensitive example_options) (name (?ts ! i)) r))) \<and>
      (\<exists>created. table w' = table example_world @ created \<and>
         (\<forall>c \<in> set created.
            filter (matches example_host (\<not> case_sensitive example_options) (row_name c))
              (table example_world) = []))"
    by (rule exI, rule exI, rule conjI[OF e5 c5])
  have x6: "\<exists>m' w2. set_tag_list example_host ?m [''APPLE'', ''BERRY'', ''Cherry''] example_world
        = (Inr (), m', w2) \<and>
      tags m' = [tag_of_row example_apple, tag_of_row example_berry, unsaved ''cherry''] \<and>
      (\<forall>t \<in> set (tags m').
         (t \<in> set (tags ?m) \<and>
          cmp_name example_host (options ?m) (name t) \<in> cmp_name example_host (options ?m) `
            set (if force_lowercase (options ?m)
                 then map (py_lower example_host) [''APPLE'', ''BERRY'', ''Cherry'']
                 else [''APPLE'', ''BERRY'', ''Cherry''])) \<or>
         (\<exists>n \<in> set (if force_lowercase (options ?m)
                     then map (py_lower example_host) [''APPLE'', ''BERRY'', ''Cherry'']
                     else [''APPLE'', ''BERRY'', ''Cherry'']).
            found_for example_host (options ?m) example_world n t))"
    by (rule exI, rule exI, rule conjI[OF e6 conjI[OF t6 c6]])
  show ?thesis
    apply (intro conjI)
                 apply (rule h4(1))
                apply (rule h4(2))
               apply (rule h4(3))
              apply (rule h4(4))
             apply (rule c4)
            apply (rule f5)
           apply (rule x5)
          apply (rule x6)
         apply (rule h7(1))
        apply (rule h7(2))
       apply (rule h7(3))
      apply (rule h7(4))
     apply (rule c7)
    apply (rule h8)
    apply (rule c8)
    done
qed

text \<open>
  C5 as stated fails for a tag given to \<open>SingleTagManager.set\<close>: only a string value
  is lowercased. With \<open>force_lowercase\<close>, setting the tag \<open>Berry\<close> stores the name
  \<open>Berry\<close>.
\<close>

theorem case_and_lowercase_counterexample:
  "force_lowercase (options (example_single\<lparr>options := example_options\<lparr>force_lowercase := True\<rparr>\<rparr>)) \<and>
   tag_name (SingleTagManager_set example_host
       (example_single\<lparr>options := example_options\<lparr>force_lowercase := True\<rparr>\<rparr>)
       (VTag (tag_of_row example_berry))) = Some ''Berry'' \<and>
   py_lower example_host ''Berry'' = ''berry''"
  by (simp add: example_defs single_defs)










end
